theory Spec2Isabelle
  imports Complex_Main
begin

section \<open>Segment phase-offset estimation and mosaicking (dhorse\_merge\_segments.py)\<close>

text \<open>
  The development embeds \<^verbatim>\<open>src/insar_analysis/dhorse_merge_segments.py\<close>.

  Numbers. A NumPy floating-point value is modelled as an exact real number, an
  infinity or NaN (\<open>npfloat\<close>). Rounding error of the binary formats and the sign of
  zero are outside the model: arithmetic on finite values is exact. The special values
  follow IEEE 754: NaN is absorbing, \<open>inf - inf\<close> is NaN and every comparison with NaN
  is false. \<open>np.pi\<close> is the real number \<open>pi\<close>.

  Arrays. A two-dimensional array is its column count together with the list of its
  rows; the row count is the length of that list. Keeping the column count apart gives
  an array without rows its full shape. An array is rectangular (\<open>rect\<close>) when each
  row has as many entries as the column count says; NumPy arrays always are.

  Errors. Every exception of the Python code is a value \<open>Inl e\<close> of a sum type.
  Printing to standard output is not modelled.
\<close>

subsection \<open>Floating-point values\<close>

datatype npfloat = NaN | NInf | Fin real | PInf

text \<open>The exceptions of the program. \<open>ReadError\<close> stands for whatever a failed attempt
  to find, open or read an input file raises.\<close>

datatype error = ValueError | OverflowError | IndexError | TypeError | UnboundLocalError | ReadError

fun fl_sub :: "npfloat \<Rightarrow> npfloat \<Rightarrow> npfloat" where
  "fl_sub NaN _ = NaN"
| "fl_sub _ NaN = NaN"
| "fl_sub (Fin a) (Fin b) = Fin (a - b)"
| "fl_sub (Fin a) PInf = NInf"
| "fl_sub (Fin a) NInf = PInf"
| "fl_sub PInf PInf = NaN"
| "fl_sub PInf _ = PInf"
| "fl_sub NInf NInf = NaN"
| "fl_sub NInf _ = NInf"

fun fl_add :: "npfloat \<Rightarrow> npfloat \<Rightarrow> npfloat" where
  "fl_add NaN _ = NaN"
| "fl_add _ NaN = NaN"
| "fl_add (Fin a) (Fin b) = Fin (a + b)"
| "fl_add (Fin a) PInf = PInf"
| "fl_add (Fin a) NInf = NInf"
| "fl_add PInf NInf = NaN"
| "fl_add PInf _ = PInf"
| "fl_add NInf PInf = NaN"
| "fl_add NInf _ = NInf"

text \<open>\<open>x > y\<close> on floats.\<close>

fun fl_gt :: "npfloat \<Rightarrow> npfloat \<Rightarrow> bool" where
  "fl_gt NaN _ = False"
| "fl_gt _ NaN = False"
| "fl_gt (Fin a) (Fin b) = (a > b)"
| "fl_gt PInf PInf = False"
| "fl_gt PInf _ = True"
| "fl_gt NInf _ = False"
| "fl_gt (Fin a) NInf = True"
| "fl_gt (Fin a) PInf = False"

text \<open>\<open>x <= y\<close> on floats; a total order on the values other than NaN.\<close>

fun fl_le :: "npfloat \<Rightarrow> npfloat \<Rightarrow> bool" where
  "fl_le NaN _ = False"
| "fl_le _ NaN = False"
| "fl_le (Fin a) (Fin b) = (a \<le> b)"
| "fl_le NInf _ = True"
| "fl_le _ PInf = True"
| "fl_le PInf _ = False"
| "fl_le (Fin a) NInf = False"

text \<open>Division by a positive finite constant \<open>d\<close> (used with \<open>2 * np.pi\<close> and \<open>2\<close>).\<close>

fun fl_div_pos :: "npfloat \<Rightarrow> real \<Rightarrow> npfloat" where
  "fl_div_pos NaN d = NaN"
| "fl_div_pos NInf d = NInf"
| "fl_div_pos PInf d = PInf"
| "fl_div_pos (Fin x) d = Fin (x / d)"

text \<open>\<open>np.round\<close>: to the nearest whole number, a tie to the even neighbour; the result
  is still a float.\<close>

definition round_half_even :: "real \<Rightarrow> int" where
  "round_half_even x =
     (let f = \<lfloor>x\<rfloor>; d = x - of_int f
      in if d < 1 / 2 then f else if 1 / 2 < d then f + 1 else if even f then f else f + 1)"

fun np_round :: "npfloat \<Rightarrow> npfloat" where
  "np_round (Fin x) = Fin (of_int (round_half_even x))"
| "np_round v = v"

text \<open>Python's \<open>int(x)\<close> on a float: truncation toward zero; NaN raises ValueError,
  an infinity raises OverflowError.\<close>

fun py_int :: "npfloat \<Rightarrow> error + int" where
  "py_int NaN = Inl ValueError"
| "py_int PInf = Inl OverflowError"
| "py_int NInf = Inl OverflowError"
| "py_int (Fin x) = Inr (if 0 \<le> x then \<lfloor>x\<rfloor> else \<lceil>x\<rceil>)"

subsection \<open>Two-dimensional arrays\<close>

record 'a array2 =
  ncols :: nat
  rows :: "'a list list"

definition nrows :: "'a array2 \<Rightarrow> nat" where
  "nrows A = length (rows A)"

definition rect :: "'a array2 \<Rightarrow> bool" where
  "rect A = list_all (\<lambda>r. length r = ncols A) (rows A)"

text \<open>The entry in row \<open>i\<close> and column \<open>j\<close>, for indices within the shape.\<close>

definition px :: "'a array2 \<Rightarrow> nat \<Rightarrow> nat \<Rightarrow> 'a" where
  "px A i j = rows A ! i ! j"

definition same_shape :: "'a array2 \<Rightarrow> 'b array2 \<Rightarrow> bool" where
  "same_shape A B = (nrows A = nrows B \<and> ncols A = ncols B)"

text \<open>\<open>A.ravel()\<close>: the entries in row-major order.\<close>

definition flatten :: "'a array2 \<Rightarrow> 'a list" where
  "flatten A = concat (rows A)"

text \<open>\<open>A[-N:, :]\<close>. For \<open>N = 0\<close> Python reads the slice as \<open>A[0:, :]\<close>, all rows.\<close>

definition last_rows :: "nat \<Rightarrow> 'a array2 \<Rightarrow> 'a array2" where
  "last_rows N A =
     \<lparr>ncols = ncols A,
      rows = (if N = 0 then rows A else drop (length (rows A) - N) (rows A))\<rparr>"

text \<open>\<open>A[:N, :]\<close>.\<close>

definition first_rows :: "nat \<Rightarrow> 'a array2 \<Rightarrow> 'a array2" where
  "first_rows N A = \<lparr>ncols = ncols A, rows = take N (rows A)\<rparr>"

text \<open>\<open>A[:, :M]\<close>.\<close>

definition first_cols :: "nat \<Rightarrow> 'a array2 \<Rightarrow> 'a array2" where
  "first_cols M A = \<lparr>ncols = min M (ncols A), rows = map (take M) (rows A)\<rparr>"

text \<open>An elementwise operation of an array with a scalar.\<close>

definition map_array :: "('a \<Rightarrow> 'b) \<Rightarrow> 'a array2 \<Rightarrow> 'b array2" where
  "map_array f A = \<lparr>ncols = ncols A, rows = map (map f) (rows A)\<rparr>"

text \<open>
  NumPy broadcasting of two 2-D operands: along each axis the lengths agree, or one of
  them is 1 and that operand is repeated; otherwise ValueError.
\<close>

definition bdim :: "nat \<Rightarrow> nat \<Rightarrow> error + nat" where
  "bdim a b = (if a = b then Inr a else if a = 1 then Inr b else if b = 1 then Inr a
               else Inl ValueError)"

definition stretch :: "nat \<Rightarrow> 'a list \<Rightarrow> 'a list" where
  "stretch n xs = (case xs of [x] \<Rightarrow> replicate n x | _ \<Rightarrow> xs)"

definition broadcast_rows :: "nat \<Rightarrow> nat \<Rightarrow> 'a array2 \<Rightarrow> 'a list list" where
  "broadcast_rows r c A = stretch r (map (stretch c) (rows A))"

definition broadcast2 :: "('a \<Rightarrow> 'b \<Rightarrow> 'c) \<Rightarrow> 'a array2 \<Rightarrow> 'b array2 \<Rightarrow> error + 'c array2" where
  "broadcast2 f A B =
     (case bdim (nrows A) (nrows B) of
        Inl e \<Rightarrow> Inl e
      | Inr r \<Rightarrow>
          (case bdim (ncols A) (ncols B) of
             Inl e \<Rightarrow> Inl e
           | Inr c \<Rightarrow>
               Inr \<lparr>ncols = c,
                    rows = map2 (map2 f) (broadcast_rows r c A) (broadcast_rows r c B)\<rparr>))"

text \<open>\<open>np.where(mask, X, np.nan)\<close>.\<close>

definition where_nan :: "bool array2 \<Rightarrow> npfloat array2 \<Rightarrow> error + npfloat array2" where
  "where_nan msk X = broadcast2 (\<lambda>m x. if m then x else NaN) msk X"

subsection \<open>The median that ignores NaN\<close>

fun insort_fl :: "npfloat \<Rightarrow> npfloat list \<Rightarrow> npfloat list" where
  "insort_fl x [] = [x]"
| "insort_fl x (y # ys) = (if fl_le x y then x # y # ys else y # insort_fl x ys)"

fun sort_fl :: "npfloat list \<Rightarrow> npfloat list" where
  "sort_fl [] = []"
| "sort_fl (x # xs) = insort_fl x (sort_fl xs)"

text \<open>\<open>np.median\<close> of a non-empty list without NaN: the middle entry of the sorted
  list, or the mean of the two middle entries.\<close>

definition median :: "npfloat list \<Rightarrow> npfloat" where
  "median xs =
     (let s = sort_fl xs; n = length s
      in if odd n then s ! (n div 2)
         else fl_div_pos (fl_add (s ! (n div 2 - 1)) (s ! (n div 2))) 2)"

text \<open>\<open>np.nanmedian\<close> over the whole array: NaN entries are dropped; when nothing is
  left (an empty array, or NaN everywhere) the result is NaN and NumPy only warns.\<close>

definition nanmedian :: "npfloat array2 \<Rightarrow> npfloat" where
  "nanmedian A =
     (let xs = filter (\<lambda>x. x \<noteq> NaN) (flatten A)
      in if xs = [] then NaN else median xs)"

subsection \<open>\<open>estimate_boundary_n\<close>\<close>

text \<open>
  \<^verbatim>\<open>phi_n = phi_north[-N:, :M]\<close> and \<^verbatim>\<open>phi_s = phi_south[:N, :M]\<close>. \<open>N\<close> and \<open>M\<close>
  are natural numbers here; the program only ever uses the defaults 400.
\<close>

definition north_slice :: "nat \<Rightarrow> nat \<Rightarrow> 'a array2 \<Rightarrow> 'a array2" where
  "north_slice N M A = first_cols M (last_rows N A)"

definition south_slice :: "nat \<Rightarrow> nat \<Rightarrow> 'a array2 \<Rightarrow> 'a array2" where
  "south_slice N M A = first_cols M (first_rows N A)"

text \<open>\<^verbatim>\<open>mask = (coh_n > coh_thr) & (coh_s > coh_thr)\<close>\<close>

definition boundary_mask ::
  "npfloat array2 \<Rightarrow> npfloat array2 \<Rightarrow> nat \<Rightarrow> nat \<Rightarrow> npfloat \<Rightarrow> error + bool array2" where
  "boundary_mask coh_north coh_south N M coh_thr =
     broadcast2 (\<and>)
       (map_array (\<lambda>x. fl_gt x coh_thr) (north_slice N M coh_north))
       (map_array (\<lambda>x. fl_gt x coh_thr) (south_slice N M coh_south))"

text \<open>\<^verbatim>\<open>diff = np.where(mask, phi_n - phi_s, np.nan)\<close>\<close>

definition boundary_diff ::
  "npfloat array2 \<Rightarrow> npfloat array2 \<Rightarrow> npfloat array2 \<Rightarrow> npfloat array2 \<Rightarrow>
   nat \<Rightarrow> nat \<Rightarrow> npfloat \<Rightarrow> error + npfloat array2" where
  "boundary_diff phi_north coh_north phi_south coh_south N M coh_thr =
     (case boundary_mask coh_north coh_south N M coh_thr of
        Inl e \<Rightarrow> Inl e
      | Inr msk \<Rightarrow>
          (case broadcast2 fl_sub (north_slice N M phi_north) (south_slice N M phi_south) of
             Inl e \<Rightarrow> Inl e
           | Inr d \<Rightarrow> where_nan msk d))"

definition estimate_boundary_n ::
  "npfloat array2 \<Rightarrow> npfloat array2 \<Rightarrow> npfloat array2 \<Rightarrow> npfloat array2 \<Rightarrow>
   nat \<Rightarrow> nat \<Rightarrow> npfloat \<Rightarrow> error + int" where
  "estimate_boundary_n phi_north coh_north phi_south coh_south N M coh_thr =
     (case boundary_diff phi_north coh_north phi_south coh_south N M coh_thr of
        Inl e \<Rightarrow> Inl e
      | Inr diff \<Rightarrow>
          (let med = nanmedian diff;
               ratio = fl_div_pos med (2 * pi);
               n = py_int (np_round ratio)
           in n))"


subsection \<open>\<open>estimate_segment_offsets\<close>\<close>

text \<open>Sequencing of computations that may raise: the first error ends the computation.\<close>

definition bind_err :: "error + 'a \<Rightarrow> ('a \<Rightarrow> error + 'b) \<Rightarrow> error + 'b" where
  "bind_err m k = (case m of Inl e \<Rightarrow> Inl e | Inr v \<Rightarrow> k v)"

text \<open>\<open>xs[i]\<close> for a literal index \<open>i \<ge> 0\<close>: IndexError beyond the end of the list.\<close>

definition getitem :: "'a list \<Rightarrow> nat \<Rightarrow> error + 'a" where
  "getitem xs i = (if i < length xs then Inr (xs ! i) else Inl IndexError)"

text \<open>The defaults \<^verbatim>\<open>N=400, M=400, coh_thr=0.7\<close> of \<open>estimate_boundary_n\<close>.\<close>

definition default_N :: nat where
  "default_N = 400"

definition default_M :: nat where
  "default_M = 400"

definition default_coh_thr :: npfloat where
  "default_coh_thr = Fin (7 / 10)"

text \<open>
  The call \<^verbatim>\<open>estimate_boundary_n(phi_list[i], coh_list[i], phi_list[j], coh_list[j])\<close>:
  Python evaluates the four arguments from left to right, then calls.
\<close>

definition boundary_n_of ::
  "npfloat array2 list \<Rightarrow> npfloat array2 list \<Rightarrow> nat \<Rightarrow> nat \<Rightarrow> error + int" where
  "boundary_n_of phi_list coh_list i j =
     bind_err (getitem phi_list i) (\<lambda>phi_north.
     bind_err (getitem coh_list i) (\<lambda>coh_north.
     bind_err (getitem phi_list j) (\<lambda>phi_south.
     bind_err (getitem coh_list j) (\<lambda>coh_south.
       estimate_boundary_n phi_north coh_north phi_south coh_south
         default_N default_M default_coh_thr))))"

definition estimate_segment_offsets ::
  "npfloat array2 list \<Rightarrow> npfloat array2 list \<Rightarrow> error + int list" where
  "estimate_segment_offsets phi_list coh_list =
     bind_err (boundary_n_of phi_list coh_list 0 1) (\<lambda>n12.
     bind_err (boundary_n_of phi_list coh_list 1 2) (\<lambda>n23.
     bind_err (boundary_n_of phi_list coh_list 2 3) (\<lambda>n34.
       (let c1 = 0;
            c2 = c1 - n12;
            c3 = c2 - n23;
            c4 = c3 - n34
        in Inr [c1, c2, c3, c4]))))"

text \<open>
  The contract of the specification, in its own words: for segments \<open>1..K\<close> with
  pairwise offsets \<open>n(i,i+1)\<close>, \<open>c(1) = 0\<close> and \<open>c(i+1) = c(i) - n(i,i+1)\<close>.
  \<open>spec_offsets_from c ns\<close> lists \<open>c\<close> and the offsets that follow it.
\<close>

fun spec_offsets_from :: "int \<Rightarrow> int list \<Rightarrow> int list" where
  "spec_offsets_from c [] = [c]"
| "spec_offsets_from c (n # ns) = c # spec_offsets_from (c - n) ns"

definition spec_absolute_offsets :: "int list \<Rightarrow> int list" where
  "spec_absolute_offsets ns = spec_offsets_from 0 ns"

subsection \<open>Phase correction, mosaic and amplitude mask\<close>

text \<open>The value \<^verbatim>\<open>ci * 2*np.pi\<close>: Python multiplies from the left, \<open>(ci * 2) * pi\<close>.\<close>

definition correction :: "int \<Rightarrow> npfloat" where
  "correction ci = Fin (of_int (ci * 2) * pi)"

text \<open>\<^verbatim>\<open>phi_corr = [phi - ci * 2*np.pi for phi, ci in zip(phi_list, c)]\<close>\<close>

definition phi_corr :: "npfloat array2 list \<Rightarrow> int list \<Rightarrow> npfloat array2 list" where
  "phi_corr phi_list c =
     map (\<lambda>(phi, ci). map_array (\<lambda>x. fl_sub x (correction ci)) phi) (zip phi_list c)"

text \<open>
  \<open>np.vstack\<close> of 2-D arrays: the rows of the arrays one after the other. ValueError
  for an empty list and for arrays whose column counts differ.
\<close>

definition vstack :: "'a array2 list \<Rightarrow> error + 'a array2" where
  "vstack xs =
     (case xs of
        [] \<Rightarrow> Inl ValueError
      | a # rest \<Rightarrow>
          if list_all (\<lambda>b. ncols b = ncols a) rest
          then Inr \<lparr>ncols = ncols a, rows = concat (map rows xs)\<rparr>
          else Inl ValueError)"

text \<open>
  \<open>np.isclose(a, b, rtol, atol)\<close>: \<open>|a - b| <= atol + rtol * |b|\<close> for finite values,
  equality for the others (NaN is close to nothing).
\<close>

fun isclose :: "npfloat \<Rightarrow> npfloat \<Rightarrow> real \<Rightarrow> real \<Rightarrow> bool" where
  "isclose (Fin a) (Fin b) rtol atol = (\<bar>a - b\<bar> \<le> atol + rtol * \<bar>b\<bar>)"
| "isclose NaN b rtol atol = False"
| "isclose a NaN rtol atol = False"
| "isclose PInf b rtol atol = (b = PInf)"
| "isclose NInf b rtol atol = (b = NInf)"
| "isclose (Fin a) b rtol atol = False"

text \<open>The default \<open>rtol=1e-05\<close> of \<open>np.isclose\<close>.\<close>

definition default_rtol :: real where
  "default_rtol = 1 / 100000"

text \<open>\<^verbatim>\<open>mask = np.where(np.isclose(mosaic_int_amp, 0.0, atol=1e-3), False, True)\<close>\<close>

definition amplitude_mask :: "npfloat array2 \<Rightarrow> bool array2" where
  "amplitude_mask mosaic_int_amp =
     map_array (\<lambda>a. if isclose a (Fin 0) default_rtol (1 / 1000) then False else True)
       mosaic_int_amp"

text \<open>
  A three-dimensional array of shape (bands, length, width) is the list of its bands.
  \<open>np.stack\<close> of 2-D arrays makes each array a band; ValueError for an empty list and
  for arrays of different shapes.
\<close>

type_synonym 'a array3 = "'a array2 list"

definition np_stack :: "'a array2 list \<Rightarrow> error + 'a array3" where
  "np_stack xs =
     (case xs of
        [] \<Rightarrow> Inl ValueError
      | a # rest \<Rightarrow>
          if list_all (\<lambda>b. nrows b = nrows a \<and> ncols b = ncols a) rest
          then Inr xs else Inl ValueError)"

text \<open>
  Lines 182 to 187: the mask from the amplitude mosaic, applied to the phase mosaic and
  to the amplitude mosaic, and the two masked layers stacked (amplitude first).
\<close>

definition mask_layers :: "npfloat array2 \<Rightarrow> npfloat array2 \<Rightarrow> error + npfloat array3" where
  "mask_layers mosaic_unw mosaic_int_amp =
     (let msk = amplitude_mask mosaic_int_amp
      in bind_err (where_nan msk mosaic_unw) (\<lambda>mosaic_unw_masked.
         bind_err (where_nan msk mosaic_int_amp) (\<lambda>mosaic_amp_masked.
           np_stack [mosaic_amp_masked, mosaic_unw_masked])))"

text \<open>Lines 174 to 187: from the three lists of segment rasters to the two-band mosaic.\<close>

definition twoband_unw ::
  "npfloat array2 list \<Rightarrow> npfloat array2 list \<Rightarrow> npfloat array2 list \<Rightarrow> error + npfloat array3" where
  "twoband_unw phi_list int_amp_list coh_list =
     bind_err (estimate_segment_offsets phi_list coh_list) (\<lambda>c.
     bind_err (vstack (phi_corr phi_list c)) (\<lambda>mosaic_unw.
     bind_err (vstack int_amp_list) (\<lambda>mosaic_int_amp.
       mask_layers mosaic_unw mosaic_int_amp)))"

subsection \<open>Strings and paths\<close>

text \<open>\<open>str.upper()\<close> and \<open>str.lower()\<close>, on ASCII letters.\<close>

definition upper_char :: "char \<Rightarrow> char" where
  "upper_char c = (let n = (of_char c :: nat) in if 97 \<le> n \<and> n \<le> 122 then char_of (n - 32) else c)"

definition lower_char :: "char \<Rightarrow> char" where
  "lower_char c = (let n = (of_char c :: nat) in if 65 \<le> n \<and> n \<le> 90 then char_of (n + 32) else c)"

definition str_upper :: "string \<Rightarrow> string" where
  "str_upper s = map upper_char s"

definition str_lower :: "string \<Rightarrow> string" where
  "str_lower s = map lower_char s"

text \<open>The decimal digits of a number, as \<open>f'{seg}'\<close> formats it.\<close>

fun str_nat :: "nat \<Rightarrow> string" where
  "str_nat n =
     (if n < 10 then [char_of (48 + n)] else str_nat (n div 10) @ [char_of (48 + n mod 10)])"

declare str_nat.simps [simp del]

text \<open>POSIX \<open>os.path.join\<close>: an absolute component discards what came before it, and a
  separator is put between components unless one is there.\<close>

definition path_join2 :: "string \<Rightarrow> string \<Rightarrow> string" where
  "path_join2 a b =
     (if b \<noteq> [] \<and> hd b = CHR ''/'' then b
      else if a = [] \<or> last a = CHR ''/'' then a @ b
      else a @ ''/'' @ b)"

definition path_join :: "string \<Rightarrow> string list \<Rightarrow> string" where
  "path_join a bs = foldl path_join2 a bs"

subsection \<open>Reading the segment rasters\<close>

text \<open>
  The input files are the world outside the program. \<open>read_single dir pattern\<close> is
  the result of \<^verbatim>\<open>gdal.Open(glob.glob(os.path.join(dir, pattern))[0]).ReadAsArray()\<close>
  for a file with one band, a 2-D array, and \<open>read_multi dir pattern\<close> the same for
  a file with several bands, a 3-D array; either may raise instead (no file matches,
  the file cannot be opened). The products read by \<open>populate_array_pattern\<close> are taken
  to be single-band files and those read by \<open>populate_array_pattern_multiband\<close>
  multi-band files, as section 6 of the specification lists them.

  \<open>mem_dtype\<close> gives the numeric type of an array in memory. It depends on the types of
  the input files and on the promotion rules of NumPy, neither of which is modelled:
  every assignment of types is admitted.
\<close>

datatype dtype = UInt8 | Int16 | UInt16 | Int32 | UInt32 | Float32 | Float64

datatype nddata = Data2 "npfloat array2" | Data3 "npfloat array3" | DataOther

record world =
  read_single :: "string \<Rightarrow> string \<Rightarrow> error + npfloat array2"
  read_multi :: "string \<Rightarrow> string \<Rightarrow> error + npfloat array3"
  mem_dtype :: "nddata \<Rightarrow> dtype"

text \<open>
  The directory of segment \<open>seg\<close>. With another product type than \<open>i\<close> or \<open>g\<close> the
  code prints a message and then reads the unassigned local variable. An interferogram
  path needs \<open>pair\<close>; \<open>os.path.join\<close> raises TypeError on \<open>None\<close>.
\<close>

definition segment_path :: "string \<Rightarrow> string option \<Rightarrow> string \<Rightarrow> string \<Rightarrow> nat \<Rightarrow> error + string" where
  "segment_path stack_dir pair product_type pol seg =
     (if str_lower product_type = ''i'' then
        (case pair of
           None \<Rightarrow> Inl TypeError
         | Some p \<Rightarrow> Inr (path_join stack_dir [''s'' @ str_nat seg @ ''_'' @ pol, ''Igrams'', p]))
      else if str_lower product_type = ''g'' then
        Inr (path_join stack_dir [''s'' @ str_nat seg @ ''_'' @ pol, ''geom_reference''])
      else Inl UnboundLocalError)"

text \<open>The loop \<^verbatim>\<open>for s in range(nr_segments): ...; seg_arr.append(arr)\<close>.\<close>

fun for_segments :: "(nat \<Rightarrow> error + 'a) \<Rightarrow> nat list \<Rightarrow> error + 'a list" where
  "for_segments f [] = Inr []"
| "for_segments f (s # ss) =
     bind_err (f s) (\<lambda>arr. bind_err (for_segments f ss) (\<lambda>seg_arr. Inr (arr # seg_arr)))"

definition populate_array_pattern ::
  "world \<Rightarrow> string \<Rightarrow> string option \<Rightarrow> string \<Rightarrow> string \<Rightarrow> string \<Rightarrow> nat
   \<Rightarrow> error + npfloat array2 list" where
  "populate_array_pattern w stack_dir pair pattern product_type pol nr_segments =
     for_segments
       (\<lambda>s. bind_err (segment_path stack_dir pair product_type pol (s + 1))
              (\<lambda>p. read_single w p pattern))
       [0..<nr_segments]"

text \<open>
  \<open>populate_array_pattern_multiband\<close> with an integer \<open>band\<close>: \<^verbatim>\<open>[band, :, :]\<close> picks
  one band, a 2-D array.
\<close>

definition populate_array_pattern_multiband ::
  "world \<Rightarrow> string \<Rightarrow> string option \<Rightarrow> string \<Rightarrow> string \<Rightarrow> nat \<Rightarrow> string \<Rightarrow> nat
   \<Rightarrow> error + npfloat array2 list" where
  "populate_array_pattern_multiband w stack_dir pair pattern product_type band pol nr_segments =
     for_segments
       (\<lambda>s. bind_err (segment_path stack_dir pair product_type pol (s + 1))
              (\<lambda>p. bind_err (read_multi w p pattern) (\<lambda>arr. getitem arr band)))
       [0..<nr_segments]"

text \<open>The same with a list of bands (\<^verbatim>\<open>band=[0,1]\<close>): the bands picked, a 3-D array.\<close>

fun getitems :: "'a list \<Rightarrow> nat list \<Rightarrow> error + 'a list" where
  "getitems xs [] = Inr []"
| "getitems xs (i # is) =
     bind_err (getitem xs i) (\<lambda>x. bind_err (getitems xs is) (\<lambda>rest. Inr (x # rest)))"

definition populate_array_pattern_multiband_list ::
  "world \<Rightarrow> string \<Rightarrow> string option \<Rightarrow> string \<Rightarrow> string \<Rightarrow> nat list \<Rightarrow> string \<Rightarrow> nat
   \<Rightarrow> error + npfloat array3 list" where
  "populate_array_pattern_multiband_list w stack_dir pair pattern product_type band pol nr_segments =
     for_segments
       (\<lambda>s. bind_err (segment_path stack_dir pair product_type pol (s + 1))
              (\<lambda>p. bind_err (read_multi w p pattern) (\<lambda>arr. getitems arr band)))
       [0..<nr_segments]"

text \<open>
  \<open>np.concatenate(xs, axis=1)\<close> of 3-D arrays: band by band, the rows of the arrays one
  after the other. ValueError for an empty list and for arrays whose band counts or
  column counts differ.
\<close>

definition ncols3 :: "'a array3 \<Rightarrow> nat" where
  "ncols3 bs = (case bs of [] \<Rightarrow> 0 | b # _ \<Rightarrow> ncols b)"

definition nrows3 :: "'a array3 \<Rightarrow> nat" where
  "nrows3 bs = (case bs of [] \<Rightarrow> 0 | b # _ \<Rightarrow> nrows b)"

definition concatenate_axis1 :: "'a array3 list \<Rightarrow> error + 'a array3" where
  "concatenate_axis1 xs =
     (case xs of
        [] \<Rightarrow> Inl ValueError
      | a # rest \<Rightarrow>
          if list_all (\<lambda>b. length b = length a \<and> ncols3 b = ncols3 a) rest
          then Inr (map (\<lambda>k. \<lparr>ncols = ncols3 a, rows = concat (map (\<lambda>x. rows (x ! k)) xs)\<rparr>)
                     [0..<length a])
          else Inl ValueError)"

subsection \<open>\<open>write_isce_image\<close>\<close>

text \<open>
  An array handed to \<open>write_isce_image\<close>: its numeric type and its contents, which have
  two, three or another number of dimensions. \<open>astype\<close> sets the numeric type; the
  values stay as they are, since rounding is not modelled.
\<close>

record ndarray =
  np_dtype :: dtype
  np_data :: nddata

definition astype :: "dtype \<Rightarrow> ndarray \<Rightarrow> ndarray" where
  "astype t arr = arr\<lparr>np_dtype := t\<rparr>"

text \<open>\<open>np.transpose(arr, (1, 0, 2))\<close>: from (bands, length, width) to (length, bands,
  width).\<close>

definition transpose_102 :: "'a array3 \<Rightarrow> 'a array3" where
  "transpose_102 bs =
     map (\<lambda>i. \<lparr>ncols = ncols3 bs, rows = map (\<lambda>b. rows b ! i) bs\<rparr>) [0..<nrows3 bs]"

text \<open>\<open>arr.tofile\<close>: the values in C order.\<close>

definition tofile :: "ndarray \<Rightarrow> npfloat list" where
  "tofile arr =
     (case np_data arr of
        Data2 a \<Rightarrow> flatten a
      | Data3 bs \<Rightarrow> concat (map flatten bs)
      | DataOther \<Rightarrow> [])"

text \<open>
  What one call leaves on disk: the raw file (the numeric type and the values dumped)
  and the fields of the ISCE image rendered into the XML and VRT files. Creating the
  directory and failures of the file system are not modelled.
\<close>

record isce_image =
  filename :: string
  raw_dtype :: dtype
  raw_values :: "npfloat list"
  img_width :: nat
  img_length :: nat
  img_bands :: nat
  img_scheme :: string
  img_dataType :: string
  img_accessMode :: string

definition render :: "string \<Rightarrow> ndarray \<Rightarrow> nat \<Rightarrow> nat \<Rightarrow> nat \<Rightarrow> string \<Rightarrow> string \<Rightarrow> isce_image" where
  "render outfile arr_out bands len width dtype scheme =
     \<lparr>filename = outfile, raw_dtype = np_dtype arr_out, raw_values = tofile arr_out,
      img_width = width, img_length = len, img_bands = bands,
      img_scheme = str_upper scheme, img_dataType = dtype, img_accessMode = ''read''\<rparr>"

definition write_isce_image :: "string \<Rightarrow> ndarray \<Rightarrow> string \<Rightarrow> string \<Rightarrow> error + isce_image" where
  "write_isce_image outfile arr dtype scheme =
     (case np_data arr of
        Data2 a \<Rightarrow>
          Inr (render outfile (astype Float32 arr) 1 (nrows a) (ncols a) dtype scheme)
      | Data3 bs \<Rightarrow>
          if str_upper scheme = ''BIL'' then
            Inr (render outfile (astype Float32 (arr\<lparr>np_data := Data3 (transpose_102 bs)\<rparr>))
                   (length bs) (nrows3 bs) (ncols3 bs) dtype scheme)
          else if str_upper scheme = ''BSQ'' then
            Inr (render outfile (astype Float32 arr) (length bs) (nrows3 bs) (ncols3 bs)
                   dtype scheme)
          else Inl ValueError
      | DataOther \<Rightarrow> Inl ValueError)"

subsection \<open>The script\<close>

definition pairs :: "string list" where
  "pairs = [''20170606_20170813'', ''20170606_20171009'', ''20170813_20171009'']"

definition pols :: "string list" where
  "pols = [''hh'', ''vv'', ''hv'']"

definition nr_segments :: nat where
  "nr_segments = 4"

definition flightline :: string where
  "flightline = ''dhorse''"

definition dir_stack :: string where
  "dir_stack = ''/Data/jpe128/ResearchData/IFT/EarthObservation/Common/jakub/deadhorse/S1_SLC/Pband_InSAR/''
     @ flightline @ ''_stack''"

text \<open>
  The state of a run is the list of the images written so far, in the order of
  writing. A step takes that list and gives its result or the exception raised,
  together with the new list; an exception ends the run and leaves the files that
  were written.
\<close>

type_synonym 'a io = "isce_image list \<Rightarrow> (error + 'a) \<times> isce_image list"

definition io_pure :: "error + 'a \<Rightarrow> 'a io" where
  "io_pure m written = (m, written)"

definition io_bind :: "'a io \<Rightarrow> ('a \<Rightarrow> 'b io) \<Rightarrow> 'b io" where
  "io_bind m k written =
     (case m written of
        (Inl e, written') \<Rightarrow> (Inl e, written')
      | (Inr v, written') \<Rightarrow> k v written')"

text \<open>A call \<^verbatim>\<open>write_isce_image(outfile, arr=...)\<close> with the defaults \<open>dtype='FLOAT'\<close>
  and \<open>scheme='BIL'\<close>.\<close>

definition io_write :: "world \<Rightarrow> string \<Rightarrow> nddata \<Rightarrow> unit io" where
  "io_write w outfile d written =
     (case write_isce_image outfile \<lparr>np_dtype = mem_dtype w d, np_data = d\<rparr> ''FLOAT'' ''BIL'' of
        Inl e \<Rightarrow> (Inl e, written)
      | Inr img \<Rightarrow> (Inr (), written @ [img]))"

fun for_each :: "'x list \<Rightarrow> ('x \<Rightarrow> unit io) \<Rightarrow> unit io" where
  "for_each [] body written = (Inr (), written)"
| "for_each (x # xs) body written =
     (case body x written of
        (Inl e, written') \<Rightarrow> (Inl e, written')
      | (Inr _, written') \<Rightarrow> for_each xs body written')"

text \<open>Lines 162 to 196, the body of \<^verbatim>\<open>for pair in pairs\<close>.\<close>

definition pair_body :: "world \<Rightarrow> string \<Rightarrow> string \<Rightarrow> string \<Rightarrow> unit io" where
  "pair_body w pol output_dir pair =
     io_bind (io_pure (populate_array_pattern_multiband w dir_stack (Some pair) ''filt_*.unw''
                         ''i'' 1 pol nr_segments)) (\<lambda>phi_list.
     io_bind (io_pure (populate_array_pattern_multiband w dir_stack (Some pair) ''filt_*.unw''
                         ''i'' 0 pol nr_segments)) (\<lambda>int_amp_list.
     io_bind (io_pure (populate_array_pattern w dir_stack (Some pair) ''filt_*.cor''
                         ''i'' pol nr_segments)) (\<lambda>coh_list.
     io_bind (io_pure (twoband_unw phi_list int_amp_list coh_list)) (\<lambda>twoband.
     io_bind (io_write w (path_join output_dir [''Igrams'', pair, ''filt_'' @ pair @ ''_snaphu.unw''])
                (Data3 twoband)) (\<lambda>_.
     io_bind (io_pure (vstack coh_list)) (\<lambda>mosaic_coh.
     io_bind (io_write w (path_join output_dir [''Igrams'', pair, ''filt_'' @ pair @ ''.cor''])
                (Data2 mosaic_coh)) (\<lambda>_.
     io_bind (io_pure (populate_array_pattern w dir_stack (Some pair) ''filt_*.conncomp''
                         ''i'' pol nr_segments)) (\<lambda>conncomp.
     io_bind (io_pure (vstack conncomp)) (\<lambda>mosaic_conncomp.
       io_write w (path_join output_dir
                     [''Igrams'', pair, ''filt_'' @ pair @ ''_snaphu.unw.conncomp''])
         (Data2 mosaic_conncomp))))))))))"

text \<open>Lines 140 to 196, the body of \<^verbatim>\<open>for pol in pols\<close>. The line-of-sight rasters
  are read with \<open>pol='hh'\<close> whatever the polarisation of the loop.\<close>

definition pol_body :: "world \<Rightarrow> string \<Rightarrow> unit io" where
  "pol_body w pol =
     (let output_dir = path_join dir_stack [''mosaic_'' @ pol] in
      io_bind (io_pure (populate_array_pattern w dir_stack None ''hgt.rdr'' ''g'' pol nr_segments))
        (\<lambda>hgt.
      io_bind (io_pure (vstack hgt)) (\<lambda>mosaic_hgt.
      io_bind (io_write w (path_join output_dir [''geom_reference'', ''hgt.rdr''])
                 (Data2 mosaic_hgt)) (\<lambda>_.
      io_bind (io_pure (populate_array_pattern w dir_stack None ''lat.rdr'' ''g'' pol nr_segments))
        (\<lambda>lat.
      io_bind (io_pure (vstack lat)) (\<lambda>mosaic_lat.
      io_bind (io_write w (path_join output_dir [''geom_reference'', ''lat.rdr''])
                 (Data2 mosaic_lat)) (\<lambda>_.
      io_bind (io_pure (populate_array_pattern w dir_stack None ''lon.rdr'' ''g'' pol nr_segments))
        (\<lambda>lon.
      io_bind (io_pure (vstack lon)) (\<lambda>mosaic_lon.
      io_bind (io_write w (path_join output_dir [''geom_reference'', ''lon.rdr''])
                 (Data2 mosaic_lon)) (\<lambda>_.
      io_bind (io_pure (populate_array_pattern w dir_stack None ''shadowMask.rdr'' ''g'' pol
                          nr_segments)) (\<lambda>shadow.
      io_bind (io_pure (vstack shadow)) (\<lambda>mosaic_shadow.
      io_bind (io_write w (path_join output_dir [''geom_reference'', ''shadowMask.rdr''])
                 (Data2 mosaic_shadow)) (\<lambda>_.
      io_bind (io_pure (populate_array_pattern_multiband_list w dir_stack None ''los.rdr'' ''g''
                          [0, 1] ''hh'' nr_segments)) (\<lambda>los.
      io_bind (io_pure (concatenate_axis1 los)) (\<lambda>mosaic_los.
      io_bind (io_write w (path_join output_dir [''geom_reference'', ''los.rdr''])
                 (Data3 mosaic_los)) (\<lambda>_.
        for_each pairs (pair_body w pol output_dir)))))))))))))))))"

definition main :: "world \<Rightarrow> unit io" where
  "main w = for_each pols (pol_body w)"

subsection \<open>The script as a schedule of products\<close>

text \<open>
  The script writes one raster per polarisation and product, in a fixed order. The
  definitions below name the products, the file each goes to and the array that is
  written, read off the two loop bodies; lemma \<open>main_schedule\<close> shows that \<open>main\<close>
  produces them one after the other and stops at the first exception.
\<close>

datatype product =
  Geometry string | LineOfSight | Unwrapped string | Coherence string | ConnComp string

definition products :: "product list" where
  "products =
     [Geometry ''hgt.rdr'', Geometry ''lat.rdr'', Geometry ''lon.rdr'',
      Geometry ''shadowMask.rdr'', LineOfSight]
     @ concat (map (\<lambda>pair. [Unwrapped pair, Coherence pair, ConnComp pair]) pairs)"

definition schedule :: "(string \<times> product) list" where
  "schedule = concat (map (\<lambda>pol. map (Pair pol) products) pols)"

definition outfile_of :: "string \<Rightarrow> product \<Rightarrow> string" where
  "outfile_of pol pr =
     (let output_dir = path_join dir_stack [''mosaic_'' @ pol] in
      case pr of
        Geometry name \<Rightarrow> path_join output_dir [''geom_reference'', name]
      | LineOfSight \<Rightarrow> path_join output_dir [''geom_reference'', ''los.rdr'']
      | Unwrapped pair \<Rightarrow>
          path_join output_dir [''Igrams'', pair, ''filt_'' @ pair @ ''_snaphu.unw'']
      | Coherence pair \<Rightarrow> path_join output_dir [''Igrams'', pair, ''filt_'' @ pair @ ''.cor'']
      | ConnComp pair \<Rightarrow>
          path_join output_dir [''Igrams'', pair, ''filt_'' @ pair @ ''_snaphu.unw.conncomp''])"

text \<open>The same path, relative to the output directory of the polarisation.\<close>

definition rel_path :: "product \<Rightarrow> string" where
  "rel_path pr =
     (case pr of
        Geometry name \<Rightarrow> ''geom_reference/'' @ name
      | LineOfSight \<Rightarrow> ''geom_reference/los.rdr''
      | Unwrapped pair \<Rightarrow> ''Igrams/'' @ pair @ ''/filt_'' @ pair @ ''_snaphu.unw''
      | Coherence pair \<Rightarrow> ''Igrams/'' @ pair @ ''/filt_'' @ pair @ ''.cor''
      | ConnComp pair \<Rightarrow> ''Igrams/'' @ pair @ ''/filt_'' @ pair @ ''_snaphu.unw.conncomp'')"

definition output_schedule :: "string list" where
  "output_schedule = map (\<lambda>(pol, pr). outfile_of pol pr) schedule"

definition array_of :: "world \<Rightarrow> string \<Rightarrow> product \<Rightarrow> error + nddata" where
  "array_of w pol pr =
     (case pr of
        Geometry name \<Rightarrow>
          bind_err (populate_array_pattern w dir_stack None name ''g'' pol nr_segments) (\<lambda>segs.
          bind_err (vstack segs) (\<lambda>mosaic. Inr (Data2 mosaic)))
      | LineOfSight \<Rightarrow>
          bind_err (populate_array_pattern_multiband_list w dir_stack None ''los.rdr'' ''g''
                      [0, 1] ''hh'' nr_segments) (\<lambda>los.
          bind_err (concatenate_axis1 los) (\<lambda>mosaic_los. Inr (Data3 mosaic_los)))
      | Unwrapped pair \<Rightarrow>
          bind_err (populate_array_pattern_multiband w dir_stack (Some pair) ''filt_*.unw''
                      ''i'' 1 pol nr_segments) (\<lambda>phi_list.
          bind_err (populate_array_pattern_multiband w dir_stack (Some pair) ''filt_*.unw''
                      ''i'' 0 pol nr_segments) (\<lambda>int_amp_list.
          bind_err (populate_array_pattern w dir_stack (Some pair) ''filt_*.cor''
                      ''i'' pol nr_segments) (\<lambda>coh_list.
          bind_err (twoband_unw phi_list int_amp_list coh_list) (\<lambda>twoband.
            Inr (Data3 twoband)))))
      | Coherence pair \<Rightarrow>
          bind_err (populate_array_pattern w dir_stack (Some pair) ''filt_*.cor''
                      ''i'' pol nr_segments) (\<lambda>coh_list.
          bind_err (vstack coh_list) (\<lambda>mosaic_coh. Inr (Data2 mosaic_coh)))
      | ConnComp pair \<Rightarrow>
          bind_err (populate_array_pattern w dir_stack (Some pair) ''filt_*.conncomp''
                      ''i'' pol nr_segments) (\<lambda>conncomp.
          bind_err (vstack conncomp) (\<lambda>mosaic_conncomp. Inr (Data2 mosaic_conncomp))))"

definition image_of :: "world \<Rightarrow> string \<Rightarrow> product \<Rightarrow> error + isce_image" where
  "image_of w pol pr =
     bind_err (array_of w pol pr) (\<lambda>d.
       write_isce_image (outfile_of pol pr) \<lparr>np_dtype = mem_dtype w d, np_data = d\<rparr>
         ''FLOAT'' ''BIL'')"

fun run_products :: "world \<Rightarrow> (string \<times> product) list \<Rightarrow> unit io" where
  "run_products w [] written = (Inr (), written)"
| "run_products w ((pol, pr) # rest) written =
     (case image_of w pol pr of
        Inl e \<Rightarrow> (Inl e, written)
      | Inr img \<Rightarrow> run_products w rest (written @ [img]))"

subsection \<open>Example rasters\<close>

text \<open>A raster with a single pixel, and four one-pixel segments whose phases differ by
  whole cycles, with full coherence.\<close>

definition one_pixel :: "'a \<Rightarrow> 'a array2" where
  "one_pixel v = \<lparr>ncols = 1, rows = [[v]]\<rparr>"

definition ex_phi_list :: "npfloat array2 list" where
  "ex_phi_list = [one_pixel (Fin (2 * pi)), one_pixel (Fin 0), one_pixel (Fin (4 * pi)),
                  one_pixel (Fin (4 * pi))]"

definition ex_coh_list :: "npfloat array2 list" where
  "ex_coh_list = [one_pixel (Fin 1), one_pixel (Fin 1), one_pixel (Fin 1), one_pixel (Fin 1)]"

text \<open>Four one-pixel segments that agree up to a fraction of a cycle.\<close>

definition ex_flat_list :: "npfloat array2 list" where
  "ex_flat_list = [one_pixel (Fin 3), one_pixel (Fin (7 / 2)), one_pixel (Fin 3),
                   one_pixel (Fin (5 / 2))]"

text \<open>
  A world in which every single-band file holds the one-pixel raster 0.5 (as
  coherence, below the threshold) and every two-band file holds amplitude 1 and
  phase 2.
\<close>

definition w_low :: world where
  "w_low = \<lparr>read_single = (\<lambda>dir pattern. Inr (one_pixel (Fin (1 / 2)))),
            read_multi = (\<lambda>dir pattern. Inr [one_pixel (Fin 1), one_pixel (Fin 2)]),
            mem_dtype = (\<lambda>d. Float64)\<rparr>"

section \<open>Properties\<close>

subsection \<open>Arrays, broadcasting and the median\<close>

lemma stretch_id: "length xs = n \<Longrightarrow> stretch n xs = xs"
  by (cases xs rule: list.exhaust; cases "tl xs") (auto simp: stretch_def split: list.splits)

lemma bdim_same: "bdim a a = Inr a"
  by (simp add: bdim_def)

lemma broadcast_rows_id:
  "rect A \<Longrightarrow> nrows A = r \<Longrightarrow> ncols A = c \<Longrightarrow> broadcast_rows r c A = rows A"
  unfolding broadcast_rows_def rect_def nrows_def
  by (simp add: stretch_id list_all_iff map_idI)

lemma broadcast2_same_shape:
  assumes "rect A" "rect B" "nrows A = nrows B" "ncols A = ncols B"
  shows "broadcast2 f A B = Inr \<lparr>ncols = ncols A, rows = map2 (map2 f) (rows A) (rows B)\<rparr>"
  using assms by (simp add: broadcast2_def bdim_same broadcast_rows_id)

lemma set_insort_fl: "set (insort_fl x xs) = insert x (set xs)"
  by (induction xs) auto

lemma set_sort_fl: "set (sort_fl xs) = set xs"
  by (induction xs) (auto simp: set_insort_fl)

lemma length_insort_fl: "length (insort_fl x xs) = Suc (length xs)"
  by (induction xs) auto

lemma length_sort_fl: "length (sort_fl xs) = length xs"
  by (induction xs) (auto simp: length_insort_fl)

lemma median_const:
  assumes "xs \<noteq> []" "\<forall>x\<in>set xs. x = Fin d"
  shows "median xs = Fin d"
proof -
  let ?s = "sort_fl xs"
  have len: "0 < length ?s" using assms(1) by (simp add: length_sort_fl)
  have el: "\<And>k. k < length ?s \<Longrightarrow> ?s ! k = Fin d"
    using assms(2) set_sort_fl nth_mem by metis
  have a: "?s ! (length ?s div 2) = Fin d" using len by (intro el) simp
  have b: "?s ! (length ?s div 2 - 1) = Fin d" using len by (intro el) arith
  show ?thesis unfolding median_def Let_def using a b by simp
qed

lemma rect_last_rows: "rect A \<Longrightarrow> rect (last_rows N A)"
  by (auto simp: rect_def last_rows_def list_all_iff dest: in_set_dropD)

lemma rect_first_rows: "rect A \<Longrightarrow> rect (first_rows N A)"
  by (auto simp: rect_def first_rows_def list_all_iff dest: in_set_takeD)

lemma rect_first_cols: "rect A \<Longrightarrow> rect (first_cols M A)"
  by (auto simp: rect_def first_cols_def list_all_iff)

lemma rect_north_slice: "rect A \<Longrightarrow> rect (north_slice N M A)"
  by (simp add: north_slice_def rect_first_cols rect_last_rows)

lemma rect_south_slice: "rect A \<Longrightarrow> rect (south_slice N M A)"
  by (simp add: south_slice_def rect_first_cols rect_first_rows)

lemma rect_map_array: "rect A \<Longrightarrow> rect (map_array f A)"
  by (auto simp: rect_def map_array_def list_all_iff)

lemma rect_row_length: "rect A \<Longrightarrow> i < nrows A \<Longrightarrow> length (rows A ! i) = ncols A"
  by (simp add: rect_def nrows_def list_all_length)

lemma broadcast2_same:
  assumes "rect A" "rect B" "same_shape A B"
  shows "\<exists>Z. broadcast2 f A B = Inr Z \<and> rect Z \<and> nrows Z = nrows A \<and> ncols Z = ncols A \<and>
             (\<forall>i<nrows A. \<forall>j<ncols A. px Z i j = f (px A i j) (px B i j))"
proof -
  let ?Z = "\<lparr>ncols = ncols A, rows = map2 (map2 f) (rows A) (rows B)\<rparr>"
  have sh: "nrows A = nrows B" "ncols A = ncols B"
    using assms(3) by (simp_all add: same_shape_def)
  have eq: "broadcast2 f A B = Inr ?Z"
    using assms(1,2) sh by (rule broadcast2_same_shape)
  have len: "length (rows A) = length (rows B)" using sh(1) by (simp add: nrows_def)
  have rowlen: "\<And>i. i < length (rows A) \<Longrightarrow>
      length (rows A ! i) = ncols A \<and> length (rows B ! i) = ncols A"
    using assms(1,2) sh by (simp add: rect_def nrows_def list_all_length)
  have "rect ?Z"
    using rowlen len by (simp add: rect_def list_all_length)
  moreover have "nrows ?Z = nrows A" using len by (simp add: nrows_def)
  moreover have "\<forall>i<nrows A. \<forall>j<ncols A. px ?Z i j = f (px A i j) (px B i j)"
    using rowlen len by (simp add: px_def nrows_def)
  ultimately show ?thesis using eq by simp
qed

lemma map_array_props:
  "nrows (map_array g A) = nrows A" "ncols (map_array g A) = ncols A"
  by (simp_all add: map_array_def nrows_def)

lemma px_map_array:
  "rect A \<Longrightarrow> i < nrows A \<Longrightarrow> j < ncols A \<Longrightarrow> px (map_array g A) i j = g (px A i j)"
  by (simp add: px_def map_array_def nrows_def rect_def list_all_length)

lemma flatten_all:
  assumes "rect Z" "\<forall>i<nrows Z. \<forall>j<ncols Z. P (px Z i j)"
  shows "\<forall>x\<in>set (flatten Z). P x"
proof
  fix x assume "x \<in> set (flatten Z)"
  then obtain r where r: "r \<in> set (rows Z)" and x: "x \<in> set r"
    unfolding flatten_def set_concat by blast
  from r obtain i where i: "i < nrows Z" "r = rows Z ! i"
    by (auto simp: in_set_conv_nth nrows_def)
  from x obtain j where j: "j < length r" "x = r ! j"
    by (auto simp: in_set_conv_nth)
  have "j < ncols Z" using j(1) i assms(1) by (simp add: rect_row_length)
  then show "P x" using assms(2) i j by (simp add: px_def)
qed

lemma flatten_nonempty:
  assumes "rect Z" "0 < nrows Z" "0 < ncols Z"
  shows "flatten Z \<noteq> []"
proof -
  have "rows Z ! 0 \<in> set (rows Z)" using assms(2) by (simp add: nrows_def)
  moreover have "length (rows Z ! 0) = ncols Z" using assms(1,2) by (rule rect_row_length)
  ultimately have "\<exists>r\<in>set (rows Z). r \<noteq> []" using assms(3) by (intro bexI [of _ "rows Z ! 0"]) auto
  then show ?thesis by (simp add: flatten_def)
qed

lemma round_half_even_of_int: "round_half_even (of_int n) = n"
  by (simp add: round_half_even_def)

lemma broadcast2_error: "broadcast2 f A B = Inl e \<Longrightarrow> e = ValueError"
  by (auto simp: broadcast2_def bdim_def split: sum.splits if_splits)

lemma set_stretch: "set (stretch n xs) \<subseteq> set xs"
  by (auto simp: stretch_def split: list.splits)

lemma broadcast_rows_entries:
  assumes "r \<in> set (broadcast_rows n c A)" "x \<in> set r"
  shows "x \<in> set (flatten A)"
proof -
  have "set (stretch n (map (stretch c) (rows A))) \<subseteq> set (map (stretch c) (rows A))"
    by (rule set_stretch)
  with assms(1) have "r \<in> set (map (stretch c) (rows A))"
    by (auto simp: broadcast_rows_def)
  then obtain r0 where r0: "r0 \<in> set (rows A)" "r = stretch c r0" by auto
  have "set (stretch c r0) \<subseteq> set r0" by (rule set_stretch)
  then have "x \<in> set r0" using assms(2) r0(2) by auto
  then show ?thesis using r0(1) by (auto simp: flatten_def)
qed

lemma broadcast2_rows:
  assumes "broadcast2 f A B = Inr Z"
  shows "\<exists>r c. rows Z = map2 (map2 f) (broadcast_rows r c A) (broadcast_rows r c B)"
proof (cases "bdim (nrows A) (nrows B)")
  case (Inl e)
  then show ?thesis using assms by (simp add: broadcast2_def)
next
  case r: (Inr r)
  show ?thesis
  proof (cases "bdim (ncols A) (ncols B)")
    case (Inl e)
    then show ?thesis using assms r by (simp add: broadcast2_def)
  next
    case (Inr c)
    then have "Z = \<lparr>ncols = c, rows = map2 (map2 f) (broadcast_rows r c A) (broadcast_rows r c B)\<rparr>"
      using assms r by (simp add: broadcast2_def)
    then show ?thesis by auto
  qed
qed

lemma broadcast2_entries:
  assumes "broadcast2 f A B = Inr Z" "z \<in> set (flatten Z)"
  shows "\<exists>a\<in>set (flatten A). \<exists>b\<in>set (flatten B). z = f a b"
proof -
  from broadcast2_rows [OF assms(1)] obtain r c where
    Z: "rows Z = map2 (map2 f) (broadcast_rows r c A) (broadcast_rows r c B)"
    by blast
  from assms(2) obtain row where row: "row \<in> set (rows Z)" "z \<in> set row"
    unfolding flatten_def set_concat by blast
  from row(1) obtain ra rb where rab: "(ra, rb) \<in> set (zip (broadcast_rows r c A) (broadcast_rows r c B))"
    "row = map2 f ra rb" unfolding Z by auto
  from row(2) obtain a b where ab: "(a, b) \<in> set (zip ra rb)" "z = f a b"
    unfolding rab(2) by auto
  have "ra \<in> set (broadcast_rows r c A)" "a \<in> set ra"
    using rab(1) ab(1) by (auto dest: set_zip_leftD)
  then have "a \<in> set (flatten A)" by (rule broadcast_rows_entries)
  moreover have "rb \<in> set (broadcast_rows r c B)" "b \<in> set rb"
    using rab(1) ab(1) by (auto dest: set_zip_rightD)
  then have "b \<in> set (flatten B)" by (rule broadcast_rows_entries)
  ultimately show ?thesis using ab(2) by blast
qed

lemma boundary_diff_error:
  assumes "boundary_diff phi_north coh_north phi_south coh_south N M coh_thr = Inl e"
  shows "e = ValueError"
proof (cases "boundary_mask coh_north coh_south N M coh_thr")
  case (Inl e')
  then have "e' = ValueError" unfolding boundary_mask_def by (rule broadcast2_error)
  then show ?thesis using assms Inl by (simp add: boundary_diff_def)
next
  case m: (Inr msk)
  show ?thesis
  proof (cases "broadcast2 fl_sub (north_slice N M phi_north) (south_slice N M phi_south)")
    case (Inl e')
    then have "e' = ValueError" by (rule broadcast2_error)
    then show ?thesis using assms m Inl by (simp add: boundary_diff_def)
  next
    case (Inr d)
    then have "where_nan msk d = Inl e" using assms m by (simp add: boundary_diff_def)
    then show ?thesis unfolding where_nan_def by (rule broadcast2_error)
  qed
qed

lemma boundary_diff_result:
  assumes "boundary_diff phi_north coh_north phi_south coh_south N M coh_thr = Inr w"
  shows "\<exists>msk d. boundary_mask coh_north coh_south N M coh_thr = Inr msk \<and>
           broadcast2 fl_sub (north_slice N M phi_north) (south_slice N M phi_south) = Inr d \<and>
           where_nan msk d = Inr w"
  using assms by (simp add: boundary_diff_def split: sum.splits)

subsection \<open>Sequencing, offsets and the mosaic\<close>

lemma bind_err_simps [simp]:
  "bind_err (Inl e) k = Inl e" "bind_err (Inr v) k = k v"
  by (simp_all add: bind_err_def)

lemma bind_err_Inr:
  "bind_err m k = Inr y \<Longrightarrow> \<exists>v. m = Inr v \<and> k v = Inr y"
  by (cases m) simp_all

lemma estimate_segment_offsets_four:
  assumes "estimate_boundary_n p1 k1 p2 k2 default_N default_M default_coh_thr = Inr n12"
    and "estimate_boundary_n p2 k2 p3 k3 default_N default_M default_coh_thr = Inr n23"
    and "estimate_boundary_n p3 k3 p4 k4 default_N default_M default_coh_thr = Inr n34"
  shows "estimate_segment_offsets [p1, p2, p3, p4] [k1, k2, k3, k4]
           = Inr [0, 0 - n12, 0 - n12 - n23, 0 - n12 - n23 - n34]"
  using assms by (simp add: estimate_segment_offsets_def boundary_n_of_def getitem_def Let_def)

lemma estimate_segment_offsets_length:
  assumes "estimate_segment_offsets phi_list coh_list = Inr c"
  shows "length c = 4"
proof -
  from assms obtain n12 n23 n34 where
    "c = [0, 0 - n12, 0 - n12 - n23, 0 - n12 - n23 - n34]"
    unfolding estimate_segment_offsets_def
    by (auto dest!: bind_err_Inr simp: Let_def)
  then show ?thesis by simp
qed

lemma round_half_even_near:
  assumes "\<bar>x - of_int k\<bar> < 1 / 2"
  shows "round_half_even x = k"
proof (cases "of_int k \<le> x")
  case True
  then have "\<lfloor>x\<rfloor> = k" using assms by (intro floor_unique) (auto simp: abs_less_iff)
  then show ?thesis using assms True by (simp add: round_half_even_def Let_def abs_less_iff)
next
  case False
  then have f: "\<lfloor>x\<rfloor> = k - 1" using assms by (intro floor_unique) (auto simp: abs_less_iff)
  have "1 / 2 < x - of_int (k - 1)" using assms False by (simp add: abs_less_iff)
  then show ?thesis using f by (simp add: round_half_even_def Let_def)
qed

lemma estimate_one_pixel:
  assumes "fl_gt cn default_coh_thr" "fl_gt cs default_coh_thr"
  shows "estimate_boundary_n (one_pixel (Fin a)) (one_pixel cn) (one_pixel (Fin b)) (one_pixel cs)
           default_N default_M default_coh_thr
         = Inr (round_half_even ((a - b) / (2 * pi)))"
  using assms
  by (simp add: one_pixel_def estimate_boundary_n_def boundary_diff_def boundary_mask_def
      where_nan_def broadcast2_def bdim_def nrows_def north_slice_def south_slice_def
      first_cols_def last_rows_def first_rows_def map_array_def broadcast_rows_def stretch_def
      nanmedian_def flatten_def median_def default_N_def default_M_def)

lemma gt_default: "fl_gt (Fin 1) default_coh_thr"
  by (simp add: default_coh_thr_def)

lemma ex12: "estimate_boundary_n (one_pixel (Fin (2 * pi))) (one_pixel (Fin 1))
     (one_pixel (Fin 0)) (one_pixel (Fin 1)) default_N default_M default_coh_thr = Inr 1"
  using round_half_even_of_int [of 1] by (simp add: estimate_one_pixel gt_default)

lemma ex23: "estimate_boundary_n (one_pixel (Fin 0)) (one_pixel (Fin 1))
     (one_pixel (Fin (4 * pi))) (one_pixel (Fin 1)) default_N default_M default_coh_thr = Inr (- 2)"
  using round_half_even_of_int [of "- 2"] by (simp add: estimate_one_pixel gt_default)

lemma ex34: "estimate_boundary_n (one_pixel (Fin (4 * pi))) (one_pixel (Fin 1))
     (one_pixel (Fin (4 * pi))) (one_pixel (Fin 1)) default_N default_M default_coh_thr = Inr 0"
  using round_half_even_of_int [of 0] by (simp add: estimate_one_pixel gt_default)

lemma example_offsets: "estimate_segment_offsets ex_phi_list ex_coh_list = Inr [0, - 1, 1, 1]"
  unfolding ex_phi_list_def ex_coh_list_def
  using estimate_segment_offsets_four [OF ex12 ex23 ex34] by simp

lemma small_ratio: "\<bar>d\<bar> \<le> 1 \<Longrightarrow> round_half_even (d / (2 * pi)) = 0"
proof (rule round_half_even_near)
  assume d: "\<bar>d\<bar> \<le> 1"
  have "\<bar>d / (2 * pi)\<bar> = \<bar>d\<bar> / (2 * pi)" by simp
  also have "\<dots> \<le> 1 / (2 * pi)" using d by (simp add: divide_right_mono)
  also have "\<dots> < 1 / 2" using pi_ge_two by (simp add: field_simps)
  finally show "\<bar>d / (2 * pi) - of_int 0\<bar> < 1 / 2" by simp
qed

lemma example_flat_offsets: "estimate_segment_offsets ex_flat_list ex_coh_list = Inr [0, 0, 0, 0]"
proof -
  have a: "estimate_boundary_n (one_pixel (Fin 3)) (one_pixel (Fin 1))
     (one_pixel (Fin (7 / 2))) (one_pixel (Fin 1)) default_N default_M default_coh_thr = Inr 0"
    using small_ratio [of "3 - 7 / 2"] by (simp add: estimate_one_pixel gt_default)
  have b: "estimate_boundary_n (one_pixel (Fin (7 / 2))) (one_pixel (Fin 1))
     (one_pixel (Fin 3)) (one_pixel (Fin 1)) default_N default_M default_coh_thr = Inr 0"
    using small_ratio [of "7 / 2 - 3"] by (simp add: estimate_one_pixel gt_default)
  have c: "estimate_boundary_n (one_pixel (Fin 3)) (one_pixel (Fin 1))
     (one_pixel (Fin (5 / 2))) (one_pixel (Fin 1)) default_N default_M default_coh_thr = Inr 0"
    using small_ratio [of "3 - 5 / 2"] by (simp add: estimate_one_pixel gt_default)
  show ?thesis
    unfolding ex_flat_list_def ex_coh_list_def
    using estimate_segment_offsets_four [OF a b c] by simp
qed

lemma correction_eq: "correction ci = Fin (of_int ci * (2 * pi))"
  by (simp add: correction_def)

lemma length_phi_corr: "length (phi_corr phi_list c) = min (length phi_list) (length c)"
  by (simp add: phi_corr_def)

lemma nth_phi_corr:
  "i < length phi_list \<Longrightarrow> i < length c \<Longrightarrow>
   phi_corr phi_list c ! i = map_array (\<lambda>x. fl_sub x (correction (c ! i))) (phi_list ! i)"
  by (simp add: phi_corr_def)

lemma fl_sub_zero: "fl_sub x (Fin 0) = x"
  by (cases x) simp_all

lemma map_array_id: "map_array (\<lambda>x. x) A = (A :: 'a array2)"
  by (simp add: map_array_def)

lemma phi_corr_zero:
  assumes "\<forall>x\<in>set c. x = 0" "length phi_list \<le> length c"
  shows "phi_corr phi_list c = phi_list"
proof (rule nth_equalityI)
  show "length (phi_corr phi_list c) = length phi_list"
    using assms(2) by (simp add: length_phi_corr)
next
  fix i assume "i < length (phi_corr phi_list c)"
  then have i: "i < length phi_list" "i < length c" by (simp_all add: length_phi_corr)
  then have "c ! i = 0" using assms(1) by simp
  then show "phi_corr phi_list c ! i = phi_list ! i"
    using i by (simp add: nth_phi_corr correction_def fl_sub_zero map_array_id)
qed

lemma vstack_rows: "vstack xs = Inr m \<Longrightarrow> rows m = concat (map rows xs)"
  by (auto simp: vstack_def split: list.splits if_splits)

lemma vstack_success:
  assumes "xs \<noteq> []" "\<forall>a\<in>set xs. ncols a = ncols (hd xs)"
  shows "vstack xs = Inr \<lparr>ncols = ncols (hd xs), rows = concat (map rows xs)\<rparr>"
  using assms by (cases xs) (simp_all add: vstack_def list_all_iff)

lemma py_int_np_round:
  assumes "py_int (np_round x) = Inr n"
  shows "np_round x = Fin (of_int n)"
proof (cases x)
  case (Fin r)
  have "(if 0 \<le> (of_int (round_half_even r) :: real) then \<lfloor>(of_int (round_half_even r) :: real)\<rfloor>
         else \<lceil>(of_int (round_half_even r) :: real)\<rceil>) = round_half_even r"
    by simp
  then show ?thesis using assms Fin by simp
qed (use assms in simp_all)

lemma estimate_boundary_n_result:
  assumes "estimate_boundary_n phi_north coh_north phi_south coh_south N M coh_thr = Inr n"
  shows "\<exists>diff. boundary_diff phi_north coh_north phi_south coh_south N M coh_thr = Inr diff \<and>
           py_int (np_round (fl_div_pos (nanmedian diff) (2 * pi))) = Inr n"
  using assms by (simp add: estimate_boundary_n_def split: sum.splits)

lemma isclose_zero: "isclose (Fin a) (Fin 0) default_rtol (1 / 1000) = (\<bar>a\<bar> \<le> 1 / 1000)"
  by simp

lemma rect_amplitude_mask: "rect A \<Longrightarrow> rect (amplitude_mask A)"
  by (simp add: amplitude_mask_def rect_map_array)

lemma np_stack_pair:
  "same_shape b a \<Longrightarrow> np_stack [a, b] = Inr [a, b]"
  by (simp add: np_stack_def same_shape_def)

lemma rect_one_pixel: "rect (one_pixel v)"
  by (simp add: rect_def one_pixel_def)

subsection \<open>The script and its schedule\<close>

lemma run_products_append:
  "run_products w (xs @ ys) written =
     (case run_products w xs written of
        (Inl e, written') \<Rightarrow> (Inl e, written')
      | (Inr _, written') \<Rightarrow> run_products w ys written')"
  by (induction xs arbitrary: written) (auto split: sum.splits)

lemma for_each_run_products:
  assumes "\<And>x written. x \<in> set xs \<Longrightarrow> body x written = run_products w (jobs x) written"
  shows "for_each xs body written = run_products w (concat (map jobs xs)) written"
  using assms
proof (induction xs arbitrary: written)
  case Nil
  then show ?case by simp
next
  case (Cons x xs)
  have "body x written = run_products w (jobs x) written" using Cons.prems by simp
  moreover have "\<And>written'. for_each xs body written' = run_products w (concat (map jobs xs)) written'"
    using Cons by simp
  ultimately show ?case
    by (simp add: run_products_append split: prod.splits sum.splits)
qed

lemma str_upper_BIL: "str_upper ''BIL'' = ''BIL''"
  by (simp add: str_upper_def upper_char_def)

lemma pair_body_schedule:
  "pair_body w pol (path_join dir_stack [''mosaic_'' @ pol]) pair written =
     run_products w [(pol, Unwrapped pair), (pol, Coherence pair), (pol, ConnComp pair)] written"
  by (simp add: pair_body_def io_bind_def io_pure_def io_write_def image_of_def array_of_def
      outfile_of_def Let_def split: sum.splits)

lemma pairs_schedule:
  "for_each pairs (pair_body w pol (path_join dir_stack [''mosaic_'' @ pol])) written =
     run_products w
       (concat (map (\<lambda>pair. [(pol, Unwrapped pair), (pol, Coherence pair), (pol, ConnComp pair)])
          pairs)) written"
  by (rule for_each_run_products) (rule pair_body_schedule)

lemma io_step:
  "io_bind (io_pure m) (\<lambda>x. io_bind (io_pure (f x)) (\<lambda>y. io_bind (io_write w p (g y)) (\<lambda>_. rest)))
     written
   = (case bind_err (bind_err m (\<lambda>x. bind_err (f x) (\<lambda>y. Inr (g y))))
             (\<lambda>d. write_isce_image p \<lparr>np_dtype = mem_dtype w d, np_data = d\<rparr> ''FLOAT'' ''BIL'') of
        Inl e \<Rightarrow> (Inl e, written)
      | Inr img \<Rightarrow> rest (written @ [img]))"
  by (simp add: io_bind_def io_pure_def io_write_def split: sum.splits)

lemma pol_body_schedule:
  "pol_body w pol written = run_products w (map (Pair pol) products) written"
proof -
  have split: "map (Pair pol) products =
      [(pol, Geometry ''hgt.rdr''), (pol, Geometry ''lat.rdr''), (pol, Geometry ''lon.rdr''),
       (pol, Geometry ''shadowMask.rdr''), (pol, LineOfSight)]
      @ concat (map (\<lambda>pair. [(pol, Unwrapped pair), (pol, Coherence pair), (pol, ConnComp pair)])
          pairs)"
    by (simp add: products_def map_concat comp_def)
  have rest: "(\<lambda>written. for_each pairs (pair_body w pol (path_join dir_stack [''mosaic_'' @ pol])) written)
      = run_products w
       (concat (map (\<lambda>pair. [(pol, Unwrapped pair), (pol, Coherence pair), (pol, ConnComp pair)])
          pairs))"
    by (rule ext) (rule pairs_schedule)
  show ?thesis
    unfolding split
    by (simp only: pol_body_def Let_def io_step pairs_schedule cong: sum.case_cong)
       (simp add: image_of_def array_of_def outfile_of_def cong: sum.case_cong)
qed

lemma main_schedule: "main w written = run_products w schedule written"
  unfolding main_def schedule_def
  by (rule for_each_run_products) (rule pol_body_schedule)

lemma path_join2_plain:
  "a \<noteq> [] \<Longrightarrow> last a \<noteq> CHR ''/'' \<Longrightarrow> b \<noteq> [] \<Longrightarrow> hd b \<noteq> CHR ''/''
   \<Longrightarrow> path_join2 a b = a @ ''/'' @ b"
  by (simp add: path_join2_def)

lemma dir_stack_plain: "dir_stack \<noteq> []" "last dir_stack \<noteq> CHR ''/''"
  by (simp_all add: dir_stack_def flightline_def)

lemma output_dir_eq:
  "pol \<noteq> [] \<Longrightarrow> path_join dir_stack [''mosaic_'' @ pol] = dir_stack @ ''/mosaic_'' @ pol"
  by (simp add: path_join_def path_join2_plain dir_stack_plain)

lemma join_rel2:
  assumes "a \<noteq> []" "last a \<noteq> CHR ''/''" "b \<noteq> []" "hd b \<noteq> CHR ''/''" "last b \<noteq> CHR ''/''"
    "c \<noteq> []" "hd c \<noteq> CHR ''/''"
  shows "path_join a [b, c] = a @ ''/'' @ b @ ''/'' @ c"
  using assms by (simp add: path_join_def path_join2_plain)

lemma join_rel3:
  assumes "a \<noteq> []" "last a \<noteq> CHR ''/''" "b \<noteq> []" "hd b \<noteq> CHR ''/''" "last b \<noteq> CHR ''/''"
    "c \<noteq> []" "hd c \<noteq> CHR ''/''" "last c \<noteq> CHR ''/''" "d \<noteq> []" "hd d \<noteq> CHR ''/''"
  shows "path_join a [b, c, d] = a @ ''/'' @ b @ ''/'' @ c @ ''/'' @ d"
  using assms by (simp add: path_join_def path_join2_plain)

lemma outfile_of_eq:
  assumes "pol \<in> set pols" "pr \<in> set products"
  shows "outfile_of pol pr = (dir_stack @ ''/mosaic_'') @ (pol @ ''/'' @ rel_path pr)"
proof -
  have pol: "pol \<noteq> []" "last pol \<noteq> CHR ''/''"
    using assms(1) by (auto simp: pols_def)
  have od: "path_join dir_stack [''mosaic_'' @ pol] = dir_stack @ ''/mosaic_'' @ pol"
    by (rule output_dir_eq [OF pol(1)])
  have a: "dir_stack @ ''/mosaic_'' @ pol \<noteq> []" "last (dir_stack @ ''/mosaic_'' @ pol) \<noteq> CHR ''/''"
    using pol by simp_all
  from assms(2) consider
      (g) name where "pr = Geometry name" "name \<in> {''hgt.rdr'', ''lat.rdr'', ''lon.rdr'', ''shadowMask.rdr''}"
    | (l) "pr = LineOfSight"
    | (u) pair where "pr = Unwrapped pair" "pair \<in> set pairs"
    | (c) pair where "pr = Coherence pair" "pair \<in> set pairs"
    | (n) pair where "pr = ConnComp pair" "pair \<in> set pairs"
    by (auto simp: products_def)
  then show ?thesis
  proof cases
    case g
    have "path_join (dir_stack @ ''/mosaic_'' @ pol) [''geom_reference'', name]
        = (dir_stack @ ''/mosaic_'' @ pol) @ ''/'' @ ''geom_reference'' @ ''/'' @ name"
      using g(2) by (intro join_rel2 [OF a]) auto
    then show ?thesis
      unfolding outfile_of_def Let_def od using g(1) by (simp add: rel_path_def)
  next
    case l
    have "path_join (dir_stack @ ''/mosaic_'' @ pol) [''geom_reference'', ''los.rdr'']
        = (dir_stack @ ''/mosaic_'' @ pol) @ ''/'' @ ''geom_reference'' @ ''/'' @ ''los.rdr''"
      by (intro join_rel2 [OF a]) auto
    then show ?thesis
      unfolding outfile_of_def Let_def od using l by (simp add: rel_path_def)
  next
    case u
    have "path_join (dir_stack @ ''/mosaic_'' @ pol) [''Igrams'', pair, ''filt_'' @ pair @ ''_snaphu.unw'']
        = (dir_stack @ ''/mosaic_'' @ pol) @ ''/'' @ ''Igrams'' @ ''/'' @ pair @ ''/''
            @ (''filt_'' @ pair @ ''_snaphu.unw'')"
      using u(2) by (intro join_rel3 [OF a]) (auto simp: pairs_def)
    then show ?thesis
      unfolding outfile_of_def Let_def od using u(1) by (simp add: rel_path_def)
  next
    case c
    have "path_join (dir_stack @ ''/mosaic_'' @ pol) [''Igrams'', pair, ''filt_'' @ pair @ ''.cor'']
        = (dir_stack @ ''/mosaic_'' @ pol) @ ''/'' @ ''Igrams'' @ ''/'' @ pair @ ''/''
            @ (''filt_'' @ pair @ ''.cor'')"
      using c(2) by (intro join_rel3 [OF a]) (auto simp: pairs_def)
    then show ?thesis
      unfolding outfile_of_def Let_def od using c(1) by (simp add: rel_path_def)
  next
    case n
    have "path_join (dir_stack @ ''/mosaic_'' @ pol)
            [''Igrams'', pair, ''filt_'' @ pair @ ''_snaphu.unw.conncomp'']
        = (dir_stack @ ''/mosaic_'' @ pol) @ ''/'' @ ''Igrams'' @ ''/'' @ pair @ ''/''
            @ (''filt_'' @ pair @ ''_snaphu.unw.conncomp'')"
      using n(2) by (intro join_rel3 [OF a]) (auto simp: pairs_def)
    then show ?thesis
      unfolding outfile_of_def Let_def od using n(1) by (simp add: rel_path_def)
  qed
qed

lemma schedule_members:
  "(pol, pr) \<in> set schedule \<Longrightarrow> pol \<in> set pols \<and> pr \<in> set products"
  by (auto simp: schedule_def)

lemma output_schedule_eq:
  "output_schedule
     = map ((@) (dir_stack @ ''/mosaic_'')) (map (\<lambda>(pol, pr). pol @ ''/'' @ rel_path pr) schedule)"
  unfolding output_schedule_def map_map
  by (rule map_cong [OF refl]) (auto dest: schedule_members simp: outfile_of_eq)

lemma distinct_short:
  "distinct (map (\<lambda>(pol, pr). pol @ ''/'' @ rel_path pr) schedule)"
  by (simp add: schedule_def pols_def products_def pairs_def rel_path_def)

lemma distinct_output_schedule: "distinct output_schedule"
  unfolding output_schedule_eq
  using distinct_short by (subst distinct_map) (simp add: inj_on_def)

lemma length_output_schedule: "length output_schedule = length schedule"
  by (simp add: output_schedule_def)

lemma write_isce_image_result:
  assumes "write_isce_image outfile arr dtype scheme = Inr img"
  shows "filename img = outfile \<and> raw_dtype img = Float32"
  using assms
  by (auto simp: write_isce_image_def render_def astype_def split: nddata.splits if_splits)

lemma image_of_result:
  assumes "image_of w pol pr = Inr img"
  shows "filename img = outfile_of pol pr \<and> raw_dtype img = Float32"
proof -
  from assms obtain d where
    "write_isce_image (outfile_of pol pr) \<lparr>np_dtype = mem_dtype w d, np_data = d\<rparr> ''FLOAT'' ''BIL''
       = Inr img"
    unfolding image_of_def by (auto dest: bind_err_Inr)
  then show ?thesis by (rule write_isce_image_result)
qed

lemma run_products_result:
  assumes "run_products w sched written = (r, written')"
  shows "\<exists>imgs. written' = written @ imgs \<and> length imgs \<le> length sched \<and>
           (\<forall>i<length imgs. image_of w (fst (sched ! i)) (snd (sched ! i)) = Inr (imgs ! i)) \<and>
           (case r of
              Inr _ \<Rightarrow> length imgs = length sched
            | Inl e \<Rightarrow> length imgs < length sched \<and>
                image_of w (fst (sched ! length imgs)) (snd (sched ! length imgs)) = Inl e)"
  using assms
proof (induction sched arbitrary: written)
  case Nil
  then show ?case by auto
next
  case (Cons x sched)
  obtain pol pr where x: "x = (pol, pr)" by (cases x)
  show ?case
  proof (cases "image_of w pol pr")
    case (Inl e)
    then have "r = Inl e" "written' = written" using Cons.prems x by simp_all
    then show ?thesis using Inl x by (intro exI [of _ "[]"]) simp
  next
    case (Inr img)
    then have "run_products w sched (written @ [img]) = (r, written')"
      using Cons.prems x by simp
    from Cons.IH [OF this] obtain imgs where
      imgs: "written' = (written @ [img]) @ imgs" "length imgs \<le> length sched"
      "\<forall>i<length imgs. image_of w (fst (sched ! i)) (snd (sched ! i)) = Inr (imgs ! i)"
      "case r of
              Inr _ \<Rightarrow> length imgs = length sched
            | Inl e \<Rightarrow> length imgs < length sched \<and>
                image_of w (fst (sched ! length imgs)) (snd (sched ! length imgs)) = Inl e"
      by blast
    have "\<forall>i<length (img # imgs).
        image_of w (fst ((x # sched) ! i)) (snd ((x # sched) ! i)) = Inr ((img # imgs) ! i)"
      using imgs(3) Inr x by (auto simp: nth_Cons split: nat.splits)
    moreover have "case r of
              Inr _ \<Rightarrow> length (img # imgs) = length (x # sched)
            | Inl e \<Rightarrow> length (img # imgs) < length (x # sched) \<and>
                image_of w (fst ((x # sched) ! length (img # imgs)))
                  (snd ((x # sched) ! length (img # imgs))) = Inl e"
      using imgs(4) by (cases r) simp_all
    ultimately show ?thesis
      using imgs(1,2) by (intro exI [of _ "img # imgs"]) simp
  qed
qed

lemma main_result:
  assumes "main w [] = (r, written)"
  shows "length written \<le> length schedule \<and>
         (\<forall>i<length written. image_of w (fst (schedule ! i)) (snd (schedule ! i)) = Inr (written ! i)) \<and>
         (case r of
            Inr _ \<Rightarrow> length written = length schedule
          | Inl e \<Rightarrow> length written < length schedule \<and>
              image_of w (fst (schedule ! length written)) (snd (schedule ! length written)) = Inl e)"
  using run_products_result [of w schedule "[]" r written] assms
  by (auto simp: main_schedule)

lemma main_filenames:
  assumes "main w [] = (r, written)"
  shows "map filename written = take (length written) output_schedule"
proof (rule nth_equalityI)
  have le: "length written \<le> length schedule" using main_result [OF assms] by blast
  then show "length (map filename written) = length (take (length written) output_schedule)"
    by (simp add: length_output_schedule)
  fix i assume "i < length (map filename written)"
  then have i: "i < length written" by simp
  then have "image_of w (fst (schedule ! i)) (snd (schedule ! i)) = Inr (written ! i)"
    using main_result [OF assms] by blast
  then have "filename (written ! i) = outfile_of (fst (schedule ! i)) (snd (schedule ! i))"
    using image_of_result by blast
  moreover have "i < length schedule" using i le by simp
  ultimately show "map filename written ! i = take (length written) output_schedule ! i"
    using i by (simp add: output_schedule_def case_prod_beta)
qed

subsection \<open>An example run\<close>

lemma str_lower_g: "str_lower ''g'' = ''g''" "str_lower ''i'' = ''i''"
  by (simp_all add: str_lower_def lower_char_def)

lemma segment_path_ok:
  "\<exists>p. segment_path dir None ''g'' pol seg = Inr p"
  "\<exists>p. segment_path dir (Some pair) ''i'' pol seg = Inr p"
  by (simp_all add: segment_path_def str_lower_g)

lemma for_segments_const:
  assumes "\<And>s. f s = Inr v"
  shows "for_segments f ss = Inr (map (\<lambda>_. v) ss)"
  by (induction ss) (simp_all add: assms)

lemma upt_4: "[0..<4] = [0, 1, 2, 3]"
  by (simp add: numeral_eq_Suc)

lemma populate_low:
  "populate_array_pattern w_low dir None pattern ''g'' pol nr_segments
     = Inr [one_pixel (Fin (1 / 2)), one_pixel (Fin (1 / 2)), one_pixel (Fin (1 / 2)),
            one_pixel (Fin (1 / 2))]"
  "populate_array_pattern w_low dir (Some pair) pattern ''i'' pol nr_segments
     = Inr [one_pixel (Fin (1 / 2)), one_pixel (Fin (1 / 2)), one_pixel (Fin (1 / 2)),
            one_pixel (Fin (1 / 2))]"
proof -
  have a: "\<And>s. bind_err (segment_path dir None ''g'' pol (s + 1))
              (\<lambda>p. read_single w_low p pattern) = Inr (one_pixel (Fin (1 / 2)))"
  proof -
    fix s
    obtain p where "segment_path dir None ''g'' pol (s + 1) = Inr p"
      using segment_path_ok(1) by blast
    then show "bind_err (segment_path dir None ''g'' pol (s + 1))
              (\<lambda>p. read_single w_low p pattern) = Inr (one_pixel (Fin (1 / 2)))"
      by (simp add: w_low_def)
  qed
  show "populate_array_pattern w_low dir None pattern ''g'' pol nr_segments
     = Inr [one_pixel (Fin (1 / 2)), one_pixel (Fin (1 / 2)), one_pixel (Fin (1 / 2)),
            one_pixel (Fin (1 / 2))]"
    unfolding populate_array_pattern_def nr_segments_def
    by (subst for_segments_const [OF a]) (simp add: upt_4)
  have b: "\<And>s. bind_err (segment_path dir (Some pair) ''i'' pol (s + 1))
              (\<lambda>p. read_single w_low p pattern) = Inr (one_pixel (Fin (1 / 2)))"
  proof -
    fix s
    obtain p where "segment_path dir (Some pair) ''i'' pol (s + 1) = Inr p"
      using segment_path_ok(2) by blast
    then show "bind_err (segment_path dir (Some pair) ''i'' pol (s + 1))
              (\<lambda>p. read_single w_low p pattern) = Inr (one_pixel (Fin (1 / 2)))"
      by (simp add: w_low_def)
  qed
  show "populate_array_pattern w_low dir (Some pair) pattern ''i'' pol nr_segments
     = Inr [one_pixel (Fin (1 / 2)), one_pixel (Fin (1 / 2)), one_pixel (Fin (1 / 2)),
            one_pixel (Fin (1 / 2))]"
    unfolding populate_array_pattern_def nr_segments_def
    by (subst for_segments_const [OF b]) (simp add: upt_4)
qed

lemma populate_multiband_low:
  "populate_array_pattern_multiband w_low dir (Some pair) pattern ''i'' 1 pol nr_segments
     = Inr [one_pixel (Fin 2), one_pixel (Fin 2), one_pixel (Fin 2), one_pixel (Fin 2)]"
  "populate_array_pattern_multiband w_low dir (Some pair) pattern ''i'' 0 pol nr_segments
     = Inr [one_pixel (Fin 1), one_pixel (Fin 1), one_pixel (Fin 1), one_pixel (Fin 1)]"
proof -
  have a: "\<And>s. bind_err (segment_path dir (Some pair) ''i'' pol (s + 1))
              (\<lambda>p. bind_err (read_multi w_low p pattern) (\<lambda>arr. getitem arr 1))
            = Inr (one_pixel (Fin 2))"
  proof -
    fix s
    obtain p where "segment_path dir (Some pair) ''i'' pol (s + 1) = Inr p"
      using segment_path_ok(2) by blast
    then show "bind_err (segment_path dir (Some pair) ''i'' pol (s + 1))
              (\<lambda>p. bind_err (read_multi w_low p pattern) (\<lambda>arr. getitem arr 1))
            = Inr (one_pixel (Fin 2))"
      by (simp add: w_low_def getitem_def)
  qed
  show "populate_array_pattern_multiband w_low dir (Some pair) pattern ''i'' 1 pol nr_segments
     = Inr [one_pixel (Fin 2), one_pixel (Fin 2), one_pixel (Fin 2), one_pixel (Fin 2)]"
    unfolding populate_array_pattern_multiband_def nr_segments_def
    by (subst for_segments_const [OF a]) (simp add: upt_4)
  have b: "\<And>s. bind_err (segment_path dir (Some pair) ''i'' pol (s + 1))
              (\<lambda>p. bind_err (read_multi w_low p pattern) (\<lambda>arr. getitem arr 0))
            = Inr (one_pixel (Fin 1))"
  proof -
    fix s
    obtain p where "segment_path dir (Some pair) ''i'' pol (s + 1) = Inr p"
      using segment_path_ok(2) by blast
    then show "bind_err (segment_path dir (Some pair) ''i'' pol (s + 1))
              (\<lambda>p. bind_err (read_multi w_low p pattern) (\<lambda>arr. getitem arr 0))
            = Inr (one_pixel (Fin 1))"
      by (simp add: w_low_def getitem_def)
  qed
  show "populate_array_pattern_multiband w_low dir (Some pair) pattern ''i'' 0 pol nr_segments
     = Inr [one_pixel (Fin 1), one_pixel (Fin 1), one_pixel (Fin 1), one_pixel (Fin 1)]"
    unfolding populate_array_pattern_multiband_def nr_segments_def
    by (subst for_segments_const [OF b]) (simp add: upt_4)
qed

lemma populate_los_low:
  "populate_array_pattern_multiband_list w_low dir None pattern ''g'' [0, 1] pol nr_segments
     = Inr [[one_pixel (Fin 1), one_pixel (Fin 2)], [one_pixel (Fin 1), one_pixel (Fin 2)],
            [one_pixel (Fin 1), one_pixel (Fin 2)], [one_pixel (Fin 1), one_pixel (Fin 2)]]"
proof -
  have a: "\<And>s. bind_err (segment_path dir None ''g'' pol (s + 1))
              (\<lambda>p. bind_err (read_multi w_low p pattern) (\<lambda>arr. getitems arr [0, 1]))
            = Inr [one_pixel (Fin 1), one_pixel (Fin 2)]"
  proof -
    fix s
    obtain p where "segment_path dir None ''g'' pol (s + 1) = Inr p"
      using segment_path_ok(1) by blast
    then show "bind_err (segment_path dir None ''g'' pol (s + 1))
              (\<lambda>p. bind_err (read_multi w_low p pattern) (\<lambda>arr. getitems arr [0, 1]))
            = Inr [one_pixel (Fin 1), one_pixel (Fin 2)]"
      by (simp add: w_low_def getitem_def)
  qed
  show ?thesis
    unfolding populate_array_pattern_multiband_list_def nr_segments_def
    by (subst for_segments_const [OF a]) (simp add: upt_4)
qed

lemma estimate_one_pixel_low:
  "estimate_boundary_n (one_pixel (Fin a)) (one_pixel (Fin (1 / 2))) (one_pixel (Fin b))
     (one_pixel (Fin (1 / 2))) default_N default_M default_coh_thr = Inl ValueError"
  by (simp add: one_pixel_def estimate_boundary_n_def boundary_diff_def boundary_mask_def
      where_nan_def broadcast2_def bdim_def nrows_def north_slice_def south_slice_def
      first_cols_def last_rows_def first_rows_def map_array_def broadcast_rows_def stretch_def
      nanmedian_def flatten_def default_N_def default_M_def default_coh_thr_def)

lemma write_ok:
  "\<exists>img. write_isce_image p \<lparr>np_dtype = t, np_data = Data2 a\<rparr> d ''BIL'' = Inr img"
  "\<exists>img. write_isce_image p \<lparr>np_dtype = t, np_data = Data3 bs\<rparr> d ''BIL'' = Inr img"
  by (simp_all add: write_isce_image_def str_upper_BIL)

lemma image_of_ok:
  assumes "array_of w pol pr = Inr d" "d \<noteq> DataOther"
  shows "\<exists>img. image_of w pol pr = Inr img"
  using assms write_ok by (cases d) (simp_all add: image_of_def)

lemma array_geometry_low:
  "\<exists>m. array_of w_low pol (Geometry name) = Inr (Data2 m)"
  by (simp add: array_of_def populate_low vstack_def one_pixel_def)

lemma array_los_low:
  "\<exists>m. array_of w_low pol LineOfSight = Inr (Data3 m)"
  using populate_los_low [of dir_stack "''los.rdr''" "''hh''"]
  by (simp add: array_of_def concatenate_axis1_def)

lemma image_geometry_low:
  "\<exists>img. image_of w_low pol (Geometry name) = Inr img"
  using array_geometry_low [of pol name] image_of_ok by blast

lemma image_los_low:
  "\<exists>img. image_of w_low pol LineOfSight = Inr img"
  using array_los_low [of pol] image_of_ok by blast

lemma twoband_low:
  "twoband_unw [one_pixel (Fin 2), one_pixel (Fin 2), one_pixel (Fin 2), one_pixel (Fin 2)]
     int_amp_list
     [one_pixel (Fin (1 / 2)), one_pixel (Fin (1 / 2)), one_pixel (Fin (1 / 2)),
      one_pixel (Fin (1 / 2))] = Inl ValueError"
  by (simp add: twoband_unw_def estimate_segment_offsets_def boundary_n_of_def getitem_def
      estimate_one_pixel_low)

lemma image_unwrapped_low:
  "image_of w_low pol (Unwrapped pair) = Inl ValueError"
  unfolding image_of_def array_of_def
  by (simp only: product.case populate_multiband_low populate_low bind_err_simps twoband_low)

lemma schedule_head:
  "\<exists>rest. schedule = (''hh'', Geometry ''hgt.rdr'') # (''hh'', Geometry ''lat.rdr'')
      # (''hh'', Geometry ''lon.rdr'') # (''hh'', Geometry ''shadowMask.rdr'')
      # (''hh'', LineOfSight) # (''hh'', Unwrapped ''20170606_20170813'') # rest"
  by (simp add: schedule_def pols_def products_def pairs_def)

lemma low_run:
  "\<exists>a b c d e. main w_low [] = (Inl ValueError, [a, b, c, d, e])"
proof -
  obtain rest where s: "schedule = (''hh'', Geometry ''hgt.rdr'') # (''hh'', Geometry ''lat.rdr'')
      # (''hh'', Geometry ''lon.rdr'') # (''hh'', Geometry ''shadowMask.rdr'')
      # (''hh'', LineOfSight) # (''hh'', Unwrapped ''20170606_20170813'') # rest"
    using schedule_head by blast
  obtain a where a: "image_of w_low ''hh'' (Geometry ''hgt.rdr'') = Inr a"
    using image_geometry_low by blast
  obtain b where b: "image_of w_low ''hh'' (Geometry ''lat.rdr'') = Inr b"
    using image_geometry_low by blast
  obtain c where c: "image_of w_low ''hh'' (Geometry ''lon.rdr'') = Inr c"
    using image_geometry_low by blast
  obtain d where d: "image_of w_low ''hh'' (Geometry ''shadowMask.rdr'') = Inr d"
    using image_geometry_low by blast
  obtain e where e: "image_of w_low ''hh'' LineOfSight = Inr e"
    using image_los_low by blast
  have "main w_low [] = (Inl ValueError, [a, b, c, d, e])"
    unfolding main_schedule s by (simp add: a b c d e image_unwrapped_low)
  then show ?thesis by blast
qed

lemma concatenate_axis1_rows:
  assumes "concatenate_axis1 los = Inr m"
  shows "\<forall>b<length m. rows (m ! b) = concat (map (\<lambda>seg. rows (seg ! b)) los)"
  using assms by (auto simp: concatenate_axis1_def split: list.splits if_splits)

subsection \<open>The boundary estimator\<close>

text \<open>
  Claim C1. Let the boundary slices (the last \<open>N\<close> rows of the upper segment and the
  first \<open>N\<close> rows of the lower segment, both cut to the first \<open>M\<close> columns) have one
  shape with at least one pixel. If at every pixel the phase difference upper minus
  lower is \<open>n_true * 2\<pi>\<close> and both coherence slices exceed the threshold, then
  \<open>estimate_boundary_n\<close> returns exactly \<open>n_true\<close>.
\<close>

theorem estimate_boundary_n_recovers_offset:
  fixes n_true :: int
  assumes rect: "rect phi_north" "rect coh_north" "rect phi_south" "rect coh_south"
    and shape: "same_shape (south_slice N M phi_south) (north_slice N M phi_north)"
               "same_shape (north_slice N M coh_north) (north_slice N M phi_north)"
               "same_shape (south_slice N M coh_south) (north_slice N M phi_north)"
    and nonempty: "0 < nrows (north_slice N M phi_north)" "0 < ncols (north_slice N M phi_north)"
    and offset: "\<forall>i<nrows (north_slice N M phi_north). \<forall>j<ncols (north_slice N M phi_north).
                   fl_sub (px (north_slice N M phi_north) i j) (px (south_slice N M phi_south) i j)
                     = Fin (of_int n_true * (2 * pi))"
    and coherent: "\<forall>i<nrows (north_slice N M phi_north). \<forall>j<ncols (north_slice N M phi_north).
                   fl_gt (px (north_slice N M coh_north) i j) coh_thr \<and>
                   fl_gt (px (south_slice N M coh_south) i j) coh_thr"
  shows "estimate_boundary_n phi_north coh_north phi_south coh_south N M coh_thr = Inr n_true"
proof -
  let ?pn = "north_slice N M phi_north" and ?ps = "south_slice N M phi_south"
  let ?cn = "north_slice N M coh_north" and ?cs = "south_slice N M coh_south"
  let ?g = "\<lambda>x. fl_gt x coh_thr"
  have r: "rect ?pn" "rect ?ps" "rect ?cn" "rect ?cs"
    using rect by (simp_all add: rect_north_slice rect_south_slice)
  have sh: "nrows ?ps = nrows ?pn" "ncols ?ps = ncols ?pn" "nrows ?cn = nrows ?pn"
    "ncols ?cn = ncols ?pn" "nrows ?cs = nrows ?pn" "ncols ?cs = ncols ?pn"
    using shape by (simp_all add: same_shape_def)
  have "same_shape (map_array ?g ?cn) (map_array ?g ?cs)"
    using sh by (simp add: same_shape_def map_array_props)
  from broadcast2_same [OF rect_map_array [OF r(3)] rect_map_array [OF r(4)] this, of "(\<and>)"]
  obtain msk where msk: "boundary_mask coh_north coh_south N M coh_thr = Inr msk"
    "rect msk" "nrows msk = nrows ?pn" "ncols msk = ncols ?pn"
    and mpx: "\<forall>i<nrows ?pn. \<forall>j<ncols ?pn.
        px msk i j = (px (map_array ?g ?cn) i j \<and> px (map_array ?g ?cs) i j)"
    unfolding boundary_mask_def by (auto simp: map_array_props sh)
  have mtrue: "\<forall>i<nrows ?pn. \<forall>j<ncols ?pn. px msk i j"
    using mpx coherent r sh by (simp add: px_map_array)
  have "same_shape ?pn ?ps" using sh by (simp add: same_shape_def)
  from broadcast2_same [OF r(1) r(2) this, of fl_sub]
  obtain d where d: "broadcast2 fl_sub ?pn ?ps = Inr d" "rect d" "nrows d = nrows ?pn"
    "ncols d = ncols ?pn"
    and dpx: "\<forall>i<nrows ?pn. \<forall>j<ncols ?pn. px d i j = fl_sub (px ?pn i j) (px ?ps i j)"
    by auto
  have "same_shape msk d" using msk d by (simp add: same_shape_def)
  from broadcast2_same [OF msk(2) d(2) this, of "\<lambda>m x. if m then x else NaN"]
  obtain w where w: "where_nan msk d = Inr w" "rect w" "nrows w = nrows ?pn"
    "ncols w = ncols ?pn"
    and wpx: "\<forall>i<nrows ?pn. \<forall>j<ncols ?pn. px w i j = (if px msk i j then px d i j else NaN)"
    unfolding where_nan_def by (auto simp: msk)
  have bd: "boundary_diff phi_north coh_north phi_south coh_south N M coh_thr = Inr w"
    by (simp add: boundary_diff_def msk(1) d(1) w(1))
  let ?v = "Fin (of_int n_true * (2 * pi))"
  have "\<forall>i<nrows w. \<forall>j<ncols w. px w i j = ?v"
    using wpx mtrue dpx offset w by simp
  then have allv: "\<forall>x\<in>set (flatten w). x = ?v"
    using w(2) by (rule flatten_all [rotated])
  have ne: "flatten w \<noteq> []"
    using w nonempty by (intro flatten_nonempty) simp_all
  have filt: "filter (\<lambda>x. x \<noteq> NaN) (flatten w) = flatten w"
    using allv by (auto simp: filter_id_conv)
  have med: "nanmedian w = ?v"
    using ne allv by (simp add: nanmedian_def filt median_const)
  show ?thesis
    by (simp add: estimate_boundary_n_def bd med round_half_even_of_int)
qed

theorem estimate_boundary_n_recovers_offset_witness:
  "estimate_boundary_n
     \<lparr>ncols = 1, rows = [[Fin (2 * pi + 1)], [Fin (2 * pi + 3)]]\<rparr>
     \<lparr>ncols = 1, rows = [[Fin (9 / 10)], [Fin (8 / 10)]]\<rparr>
     \<lparr>ncols = 1, rows = [[Fin 1], [Fin 3]]\<rparr>
     \<lparr>ncols = 1, rows = [[Fin 1], [Fin (3 / 4)]]\<rparr>
     400 400 (Fin (7 / 10)) = Inr 1"
  by (rule estimate_boundary_n_recovers_offset)
     (simp_all add: rect_def same_shape_def nrows_def north_slice_def south_slice_def
        first_cols_def last_rows_def first_rows_def px_def All_less_Suc)


text \<open>
  Claim C3. When no pixel of the boundary region passes the coherence gate (the mask
  of line 22, wherever it can be computed, holds no \<open>True\<close>), \<open>estimate_boundary_n\<close>
  raises ValueError: every difference is masked to NaN, the median is NaN and
  \<open>int\<close> refuses NaN. No integer is returned, in particular not 0.
\<close>

theorem estimate_boundary_n_no_coherent_pixel:
  assumes "\<forall>msk. boundary_mask coh_north coh_south N M coh_thr = Inr msk
             \<longrightarrow> True \<notin> set (flatten msk)"
  shows "estimate_boundary_n phi_north coh_north phi_south coh_south N M coh_thr = Inl ValueError"
proof (cases "boundary_diff phi_north coh_north phi_south coh_south N M coh_thr")
  case (Inl e)
  then have "e = ValueError" by (rule boundary_diff_error)
  then show ?thesis using Inl by (simp add: estimate_boundary_n_def)
next
  case (Inr w)
  from boundary_diff_result [OF this]
  obtain msk d where msk: "boundary_mask coh_north coh_south N M coh_thr = Inr msk"
    and w: "where_nan msk d = Inr w"
    by blast
  have "\<forall>x\<in>set (flatten w). x = NaN"
  proof
    fix x assume "x \<in> set (flatten w)"
    then obtain m y where "m \<in> set (flatten msk)" "x = (if m then y else NaN)"
      using broadcast2_entries [OF w [unfolded where_nan_def]] by blast
    moreover have "True \<notin> set (flatten msk)" using assms msk by blast
    ultimately show "x = NaN" by (cases m) auto
  qed
  then have "filter (\<lambda>x. x \<noteq> NaN) (flatten w) = []"
    by (simp add: filter_empty_conv)
  then have "nanmedian w = NaN" by (simp add: nanmedian_def)
  then show ?thesis using Inr by (simp add: estimate_boundary_n_def)
qed

theorem estimate_boundary_n_no_coherent_pixel_witness:
  "estimate_boundary_n
     \<lparr>ncols = 2, rows = [[Fin 7, Fin 8]]\<rparr>
     \<lparr>ncols = 2, rows = [[Fin (9 / 10), Fin (1 / 2)]]\<rparr>
     \<lparr>ncols = 2, rows = [[Fin 1, Fin 2]]\<rparr>
     \<lparr>ncols = 2, rows = [[Fin (3 / 10), Fin (9 / 10)]]\<rparr>
     400 400 (Fin (7 / 10)) = Inl ValueError"
proof (rule estimate_boundary_n_no_coherent_pixel)
  have "boundary_mask \<lparr>ncols = 2, rows = [[Fin (9 / 10), Fin (1 / 2)]]\<rparr>
     \<lparr>ncols = 2, rows = [[Fin (3 / 10), Fin (9 / 10)]]\<rparr> 400 400 (Fin (7 / 10))
     = Inr \<lparr>ncols = 2, rows = [[False, False]]\<rparr>"
    by (simp add: boundary_mask_def broadcast2_def bdim_def nrows_def north_slice_def
        south_slice_def first_cols_def last_rows_def first_rows_def map_array_def
        broadcast_rows_def stretch_def)
  then show "\<forall>msk. boundary_mask \<lparr>ncols = 2, rows = [[Fin (9 / 10), Fin (1 / 2)]]\<rparr>
     \<lparr>ncols = 2, rows = [[Fin (3 / 10), Fin (9 / 10)]]\<rparr> 400 400 (Fin (7 / 10)) = Inr msk
       \<longrightarrow> True \<notin> set (flatten msk)"
    by (auto simp: flatten_def)
qed

subsection \<open>Cumulative offsets\<close>

text \<open>
  Claim C2, as the specification words it, is about segments \<open>1..K\<close> for any \<open>K\<close> and
  gives the example of three segments. \<open>estimate_segment_offsets\<close> reads exactly
  \<open>phi_list[0]\<close> to \<open>phi_list[3]\<close>: with three segments whose pairwise offsets are 1
  and \<open>-2\<close> it raises IndexError instead of returning \<open>[0, -1, 1]\<close>.
\<close>

theorem estimate_segment_offsets_three_segments_counterexample:
  "estimate_boundary_n (one_pixel (Fin (2 * pi))) (one_pixel (Fin 1))
     (one_pixel (Fin 0)) (one_pixel (Fin 1)) default_N default_M default_coh_thr = Inr 1 \<and>
   estimate_boundary_n (one_pixel (Fin 0)) (one_pixel (Fin 1))
     (one_pixel (Fin (4 * pi))) (one_pixel (Fin 1)) default_N default_M default_coh_thr = Inr (- 2) \<and>
   estimate_segment_offsets
     [one_pixel (Fin (2 * pi)), one_pixel (Fin 0), one_pixel (Fin (4 * pi))]
     [one_pixel (Fin 1), one_pixel (Fin 1), one_pixel (Fin 1)] = Inl IndexError \<and>
   estimate_segment_offsets
     [one_pixel (Fin (2 * pi)), one_pixel (Fin 0), one_pixel (Fin (4 * pi))]
     [one_pixel (Fin 1), one_pixel (Fin 1), one_pixel (Fin 1)] \<noteq> Inr [0, - 1, 1]"
  by (simp add: ex12 ex23 estimate_segment_offsets_def boundary_n_of_def getitem_def)

text \<open>
  Claim C2, amended. For four segments whose three pairwise boundary offsets are
  \<open>n12\<close>, \<open>n23\<close> and \<open>n34\<close>, \<open>estimate_segment_offsets\<close> returns the left-to-right fold
  of the specification, \<open>c(1) = 0\<close> and \<open>c(i+1) = c(i) - n(i,i+1)\<close>, that is
  \<open>[0, -n12, -n12-n23, -n12-n23-n34]\<close>; with \<open>n12 = 1\<close> and \<open>n23 = -2\<close> the offsets of
  the first three segments are \<open>[0, -1, 1]\<close>.
\<close>

theorem estimate_segment_offsets_fold:
  assumes "estimate_boundary_n p1 k1 p2 k2 default_N default_M default_coh_thr = Inr n12"
    and "estimate_boundary_n p2 k2 p3 k3 default_N default_M default_coh_thr = Inr n23"
    and "estimate_boundary_n p3 k3 p4 k4 default_N default_M default_coh_thr = Inr n34"
  shows "estimate_segment_offsets [p1, p2, p3, p4] [k1, k2, k3, k4]
           = Inr (spec_absolute_offsets [n12, n23, n34]) \<and>
         spec_absolute_offsets [n12, n23, n34] = [0, - n12, - n12 - n23, - n12 - n23 - n34] \<and>
         (n12 = 1 \<and> n23 = - 2 \<longrightarrow> take 3 (spec_absolute_offsets [n12, n23, n34]) = [0, - 1, 1])"
  using estimate_segment_offsets_four [OF assms]
  by (simp add: spec_absolute_offsets_def)

theorem estimate_segment_offsets_fold_witness:
  "estimate_segment_offsets
     [one_pixel (Fin (2 * pi)), one_pixel (Fin 0), one_pixel (Fin (4 * pi)), one_pixel (Fin (4 * pi))]
     [one_pixel (Fin 1), one_pixel (Fin 1), one_pixel (Fin 1), one_pixel (Fin 1)]
     = Inr [0, - 1, 1, 1]"
  using estimate_segment_offsets_fold [OF ex12 ex23 ex34] by simp

text \<open>
  Claim C7. Every cycle offset is a whole number. The value that \<open>estimate_boundary_n\<close>
  hands to \<open>int\<close> is the float \<open>np.round\<close> returned, already whole, and the integer
  returned is that value. The absolute offsets are 0 and differences of such integers,
  and the correction \<open>ci * 2*np.pi\<close> subtracted from segment \<open>i\<close> is the \<open>ci\<close>-fold of
  \<open>2\<pi>\<close>.
\<close>

theorem cycle_offsets_are_integers:
  "(estimate_boundary_n phi_north coh_north phi_south coh_south N M coh_thr = Inr n \<longrightarrow>
      (\<exists>diff. boundary_diff phi_north coh_north phi_south coh_south N M coh_thr = Inr diff \<and>
         np_round (fl_div_pos (nanmedian diff) (2 * pi)) = Fin (of_int n))) \<and>
   (estimate_segment_offsets phi_list coh_list = Inr c \<longrightarrow>
      (\<exists>n12 n23 n34 :: int. c = [0, - n12, - n12 - n23, - n12 - n23 - n34]) \<and>
      (\<forall>ci\<in>set c. correction ci = Fin (of_int ci * (2 * pi))))"
proof (intro conjI impI)
  assume "estimate_boundary_n phi_north coh_north phi_south coh_south N M coh_thr = Inr n"
  from estimate_boundary_n_result [OF this]
  show "\<exists>diff. boundary_diff phi_north coh_north phi_south coh_south N M coh_thr = Inr diff \<and>
         np_round (fl_div_pos (nanmedian diff) (2 * pi)) = Fin (of_int n)"
    using py_int_np_round by blast
next
  assume "estimate_segment_offsets phi_list coh_list = Inr c"
  then show "\<exists>n12 n23 n34 :: int. c = [0, - n12, - n12 - n23, - n12 - n23 - n34]"
    unfolding estimate_segment_offsets_def
    by (auto dest!: bind_err_Inr simp: Let_def)
next
  show "\<forall>ci\<in>set c. correction ci = Fin (of_int ci * (2 * pi))"
    by (simp add: correction_eq)
qed

theorem cycle_offsets_are_integers_witness:
  "(\<exists>diff. boundary_diff (one_pixel (Fin (2 * pi))) (one_pixel (Fin 1)) (one_pixel (Fin 0))
              (one_pixel (Fin 1)) default_N default_M default_coh_thr = Inr diff \<and>
           np_round (fl_div_pos (nanmedian diff) (2 * pi)) = Fin 1) \<and>
   correction (- 1) = Fin (- (2 * pi))"
  using cycle_offsets_are_integers [of "one_pixel (Fin (2 * pi))" "one_pixel (Fin 1)"
      "one_pixel (Fin 0)" "one_pixel (Fin 1)" default_N default_M default_coh_thr 1
      ex_phi_list ex_coh_list "[0, - 1, 1, 1]"]
    ex12 example_offsets
  by simp

subsection \<open>Phase correction and mosaic\<close>

text \<open>
  Claim C4. With the offsets \<open>c\<close> that \<open>estimate_segment_offsets\<close> returns for the four
  segments, \<open>phi_corr\<close> holds one corrected raster per segment, of the shape of the
  segment, and every pixel of the corrected raster of segment \<open>i\<close> is the pixel of
  \<open>phi(i)\<close> minus \<open>c(i) * 2\<pi>\<close>.
\<close>

theorem phi_corr_subtracts_offset:
  assumes "estimate_segment_offsets phi_list coh_list = Inr c"
    and "length phi_list = nr_segments"
    and "\<forall>phi\<in>set phi_list. rect phi"
  shows "length (phi_corr phi_list c) = length phi_list \<and>
         (\<forall>i<length phi_list.
            same_shape (phi_corr phi_list c ! i) (phi_list ! i) \<and>
            (\<forall>r<nrows (phi_list ! i). \<forall>j<ncols (phi_list ! i).
               px (phi_corr phi_list c ! i) r j
                 = fl_sub (px (phi_list ! i) r j) (Fin (of_int (c ! i) * (2 * pi)))))"
proof -
  have len: "length c = length phi_list"
    using estimate_segment_offsets_length [OF assms(1)] assms(2) by (simp add: nr_segments_def)
  have "length (phi_corr phi_list c) = length phi_list"
    using len by (simp add: length_phi_corr)
  moreover have "\<forall>i<length phi_list.
            same_shape (phi_corr phi_list c ! i) (phi_list ! i) \<and>
            (\<forall>r<nrows (phi_list ! i). \<forall>j<ncols (phi_list ! i).
               px (phi_corr phi_list c ! i) r j
                 = fl_sub (px (phi_list ! i) r j) (Fin (of_int (c ! i) * (2 * pi))))"
  proof (intro allI impI conjI)
    fix i assume i: "i < length phi_list"
    then have nth: "phi_corr phi_list c ! i
        = map_array (\<lambda>x. fl_sub x (correction (c ! i))) (phi_list ! i)"
      using len by (simp add: nth_phi_corr)
    show "same_shape (phi_corr phi_list c ! i) (phi_list ! i)"
      by (simp add: nth same_shape_def map_array_props)
    fix r j assume "r < nrows (phi_list ! i)" "j < ncols (phi_list ! i)"
    moreover have "rect (phi_list ! i)" using assms(3) i by simp
    ultimately show "px (phi_corr phi_list c ! i) r j
                 = fl_sub (px (phi_list ! i) r j) (Fin (of_int (c ! i) * (2 * pi)))"
      by (simp add: nth px_map_array correction_eq)
  qed
  ultimately show ?thesis by simp
qed

theorem phi_corr_subtracts_offset_witness:
  "length (phi_corr ex_phi_list [0, - 1, 1, 1]) = 4 \<and>
   px (phi_corr ex_phi_list [0, - 1, 1, 1] ! 1) 0 0 = Fin (2 * pi) \<and>
   px (phi_corr ex_phi_list [0, - 1, 1, 1] ! 2) 0 0 = Fin (2 * pi)"
proof -
  have len: "length ex_phi_list = nr_segments"
    by (simp add: ex_phi_list_def nr_segments_def)
  have r: "\<forall>phi\<in>set ex_phi_list. rect phi"
    by (simp add: ex_phi_list_def rect_one_pixel)
  note t = phi_corr_subtracts_offset [OF example_offsets len r]
  have sz: "nrows (ex_phi_list ! 1) = 1" "ncols (ex_phi_list ! 1) = 1"
    "nrows (ex_phi_list ! 2) = 1" "ncols (ex_phi_list ! 2) = 1" "length ex_phi_list = 4"
    by (simp_all add: ex_phi_list_def one_pixel_def nrows_def)
  have v: "px (ex_phi_list ! 1) 0 0 = Fin 0" "px (ex_phi_list ! 2) 0 0 = Fin (4 * pi)"
    by (simp_all add: ex_phi_list_def one_pixel_def px_def)
  from t have "px (phi_corr ex_phi_list [0, - 1, 1, 1] ! 1) 0 0
      = fl_sub (px (ex_phi_list ! 1) 0 0) (Fin (of_int ([0, - 1, 1, 1] ! 1) * (2 * pi)))"
    using sz by simp
  moreover from t have "px (phi_corr ex_phi_list [0, - 1, 1, 1] ! 2) 0 0
      = fl_sub (px (ex_phi_list ! 2) 0 0) (Fin (of_int ([0, - 1, 1, 1] ! 2) * (2 * pi)))"
    using sz by simp
  ultimately show ?thesis using t sz v by simp
qed

text \<open>
  Claim C6. When every offset that \<open>estimate_segment_offsets\<close> returns for the four
  segments is zero, the correction changes nothing: the phase mosaic
  \<open>np.vstack(phi_corr)\<close> is \<open>np.vstack(phi_list)\<close>, and its rows are the rows of
  segment 1, then those of segment 2, and so on, none added and none left out. The
  stacking succeeds when the segments have the same number of columns.
\<close>

theorem zero_offsets_mosaic_is_concatenation:
  assumes "estimate_segment_offsets phi_list coh_list = Inr c"
    and "\<forall>x\<in>set c. x = 0"
    and "length phi_list = nr_segments"
  shows "vstack (phi_corr phi_list c) = vstack phi_list \<and>
         (\<forall>m. vstack (phi_corr phi_list c) = Inr m \<longrightarrow> rows m = concat (map rows phi_list)) \<and>
         ((\<forall>phi\<in>set phi_list. ncols phi = ncols (hd phi_list)) \<longrightarrow>
            vstack (phi_corr phi_list c)
              = Inr \<lparr>ncols = ncols (hd phi_list), rows = concat (map rows phi_list)\<rparr>)"
proof -
  have "length phi_list \<le> length c"
    using estimate_segment_offsets_length [OF assms(1)] assms(3) by (simp add: nr_segments_def)
  with assms(2) have eq: "phi_corr phi_list c = phi_list" by (rule phi_corr_zero)
  have ne: "phi_list \<noteq> []" using assms(3) by (auto simp: nr_segments_def)
  have "\<forall>m. vstack phi_list = Inr m \<longrightarrow> rows m = concat (map rows phi_list)"
    using vstack_rows by blast
  moreover have "(\<forall>phi\<in>set phi_list. ncols phi = ncols (hd phi_list)) \<longrightarrow>
            vstack phi_list
              = Inr \<lparr>ncols = ncols (hd phi_list), rows = concat (map rows phi_list)\<rparr>"
    using vstack_success [OF ne] by blast
  ultimately show ?thesis unfolding eq by blast
qed

theorem zero_offsets_mosaic_is_concatenation_witness:
  "vstack (phi_corr ex_flat_list [0, 0, 0, 0])
     = Inr \<lparr>ncols = 1, rows = [[Fin 3], [Fin (7 / 2)], [Fin 3], [Fin (5 / 2)]]\<rparr>"
proof -
  have z: "\<forall>x\<in>set [0, 0, 0, 0 :: int]. x = 0" by simp
  have len: "length ex_flat_list = nr_segments"
    by (simp add: ex_flat_list_def nr_segments_def)
  have cols: "\<forall>phi\<in>set ex_flat_list. ncols phi = ncols (hd ex_flat_list)"
    by (simp add: ex_flat_list_def one_pixel_def)
  from zero_offsets_mosaic_is_concatenation [OF example_flat_offsets z len] cols
  have "vstack (phi_corr ex_flat_list [0, 0, 0, 0])
          = Inr \<lparr>ncols = ncols (hd ex_flat_list), rows = concat (map rows ex_flat_list)\<rparr>"
    by blast
  then show ?thesis by (simp add: ex_flat_list_def one_pixel_def)
qed

text \<open>
  Claim C5. For a phase mosaic and an amplitude mosaic of one shape, lines 182 to 187
  give the two layers, amplitude first, of that shape, and at every pixel: if the
  amplitude is within \<open>1e-3\<close> of zero (for a finite amplitude \<open>a\<close>, \<open>|a| \<le> 1/1000\<close>)
  both layers hold NaN, otherwise both hold the value they had. An amplitude of
  \<open>1e-4\<close> is masked, one of \<open>0.1\<close> is not.
\<close>

theorem amplitude_mask_sets_nan:
  assumes "rect mosaic_unw" "rect mosaic_int_amp" "same_shape mosaic_unw mosaic_int_amp"
  shows "\<exists>amp_masked unw_masked.
           mask_layers mosaic_unw mosaic_int_amp = Inr [amp_masked, unw_masked] \<and>
           same_shape amp_masked mosaic_int_amp \<and> same_shape unw_masked mosaic_int_amp \<and>
           (\<forall>i<nrows mosaic_int_amp. \<forall>j<ncols mosaic_int_amp.
              if isclose (px mosaic_int_amp i j) (Fin 0) default_rtol (1 / 1000)
              then px amp_masked i j = NaN \<and> px unw_masked i j = NaN
              else px amp_masked i j = px mosaic_int_amp i j \<and>
                   px unw_masked i j = px mosaic_unw i j) \<and>
           (\<forall>a. isclose (Fin a) (Fin 0) default_rtol (1 / 1000) = (\<bar>a\<bar> \<le> 1 / 1000)) \<and>
           isclose (Fin (1 / 10000)) (Fin 0) default_rtol (1 / 1000) \<and>
           \<not> isclose (Fin (1 / 10)) (Fin 0) default_rtol (1 / 1000)"
proof -
  let ?m = "amplitude_mask mosaic_int_amp"
  let ?w = "\<lambda>m x. if m then x else NaN"
  have sh: "nrows mosaic_unw = nrows mosaic_int_amp" "ncols mosaic_unw = ncols mosaic_int_amp"
    using assms(3) by (simp_all add: same_shape_def)
  have rm: "rect ?m" using assms(2) by (rule rect_amplitude_mask)
  have shm: "nrows ?m = nrows mosaic_int_amp" "ncols ?m = ncols mosaic_int_amp"
    by (simp_all add: amplitude_mask_def map_array_props)
  have mpx: "\<forall>i<nrows mosaic_int_amp. \<forall>j<ncols mosaic_int_amp.
      px ?m i j = (\<not> isclose (px mosaic_int_amp i j) (Fin 0) default_rtol (1 / 1000))"
    using assms(2) by (simp add: amplitude_mask_def px_map_array)
  have "same_shape ?m mosaic_unw" using sh shm by (simp add: same_shape_def)
  from broadcast2_same [OF rm assms(1) this, of ?w]
  obtain u where u: "where_nan ?m mosaic_unw = Inr u" "rect u"
    "nrows u = nrows mosaic_int_amp" "ncols u = ncols mosaic_int_amp"
    and upx: "\<forall>i<nrows mosaic_int_amp. \<forall>j<ncols mosaic_int_amp.
        px u i j = (if px ?m i j then px mosaic_unw i j else NaN)"
    unfolding where_nan_def by (auto simp: shm)
  have "same_shape ?m mosaic_int_amp" using shm by (simp add: same_shape_def)
  from broadcast2_same [OF rm assms(2) this, of ?w]
  obtain a where a: "where_nan ?m mosaic_int_amp = Inr a" "rect a"
    "nrows a = nrows mosaic_int_amp" "ncols a = ncols mosaic_int_amp"
    and apx: "\<forall>i<nrows mosaic_int_amp. \<forall>j<ncols mosaic_int_amp.
        px a i j = (if px ?m i j then px mosaic_int_amp i j else NaN)"
    unfolding where_nan_def by (auto simp: shm)
  have "same_shape u a" using u a by (simp add: same_shape_def)
  then have st: "np_stack [a, u] = Inr [a, u]" by (rule np_stack_pair)
  have ml: "mask_layers mosaic_unw mosaic_int_amp = Inr [a, u]"
    by (simp add: mask_layers_def Let_def u(1) a(1) st)
  have px_ok: "\<forall>i<nrows mosaic_int_amp. \<forall>j<ncols mosaic_int_amp.
              if isclose (px mosaic_int_amp i j) (Fin 0) default_rtol (1 / 1000)
              then px a i j = NaN \<and> px u i j = NaN
              else px a i j = px mosaic_int_amp i j \<and> px u i j = px mosaic_unw i j"
    using upx apx mpx by simp
  have shapes: "same_shape a mosaic_int_amp" "same_shape u mosaic_int_amp"
    using a u by (simp_all add: same_shape_def)
  have ex1: "isclose (Fin (1 / 10000)) (Fin 0) default_rtol (1 / 1000)" by simp
  have ex2: "\<not> isclose (Fin (1 / 10)) (Fin 0) default_rtol (1 / 1000)" by simp
  show ?thesis
    using ml shapes px_ok isclose_zero ex1 ex2 by blast
qed

theorem amplitude_mask_sets_nan_witness:
  "\<exists>amp_masked unw_masked.
     mask_layers \<lparr>ncols = 2, rows = [[Fin 5, Fin 6]]\<rparr>
       \<lparr>ncols = 2, rows = [[Fin (1 / 10000), Fin (1 / 10)]]\<rparr> = Inr [amp_masked, unw_masked] \<and>
     px amp_masked 0 0 = NaN \<and> px unw_masked 0 0 = NaN \<and>
     px amp_masked 0 1 = Fin (1 / 10) \<and> px unw_masked 0 1 = Fin 6"
proof -
  let ?U = "\<lparr>ncols = 2, rows = [[Fin 5, Fin 6]]\<rparr>"
  let ?A = "\<lparr>ncols = 2, rows = [[Fin (1 / 10000), Fin (1 / 10)]]\<rparr>"
  have h: "rect ?U" "rect ?A" "same_shape ?U ?A"
    by (simp_all add: rect_def same_shape_def nrows_def)
  from amplitude_mask_sets_nan [OF h]
  obtain a u where au: "mask_layers ?U ?A = Inr [a, u]"
    and p: "\<forall>i<nrows ?A. \<forall>j<ncols ?A.
              if isclose (px ?A i j) (Fin 0) default_rtol (1 / 1000)
              then px a i j = NaN \<and> px u i j = NaN
              else px a i j = px ?A i j \<and> px u i j = px ?U i j"
    by blast
  have "px a 0 0 = NaN \<and> px u 0 0 = NaN"
    using p [rule_format, of 0 0] by (simp add: nrows_def px_def)
  moreover have "px a 0 1 = Fin (1 / 10) \<and> px u 0 1 = Fin 6"
    using p [rule_format, of 0 1] by (simp add: nrows_def px_def)
  ultimately show ?thesis using au by blast
qed

subsection \<open>The run of the script\<close>







end
